theory Spec2Isabelle
  imports Main
begin

section \<open>Receipt extraction: the recovery pipeline of \<open>ReceiptsService\<close>\<close>

text \<open>
  A shallow embedding of the text-recovery functions of \<^verbatim>\<open>receipts.service.ts\<close>:
  \<^verbatim>\<open>sanitizeJsonString\<close>, \<^verbatim>\<open>extractJsonFromLLMResponse\<close>, \<^verbatim>\<open>validateAndCleanData\<close>,
  \<^verbatim>\<open>extractDataWithRegex\<close>, \<^verbatim>\<open>getPositionFromLineCol\<close> and \<^verbatim>\<open>parseDate\<close>.

  JavaScript strings are modelled as \<^typ>\<open>string\<close>: a list of code units, restricted to
  the code units 0..255. An exception is a value \<open>Inl e\<close> of a sum type, a
  \<^verbatim>\<open>try\<close>/\<^verbatim>\<open>catch\<close> is a case distinction on it. Calls of the logger are left out:
  they produce no value that the functions use.
\<close>

subsection \<open>Characters\<close>

definition code :: "char \<Rightarrow> nat" where
  "code c = of_char c"

definition bsl :: char where
  "bsl = CHR 0x5C"

definition dq :: char where
  "dq = CHR 0x22"

definition sq :: char where
  "sq = CHR 0x27"

definition nl :: char where
  "nl = CHR 0x0A"

text \<open>\<^verbatim>\<open>\d\<close>, \<^verbatim>\<open>[a-zA-Z]\<close>, \<^verbatim>\<open>[a-zA-Z0-9_]\<close> and \<^verbatim>\<open>\s\<close> (white space and line
  terminators: TAB, LF, VT, FF, CR, SP, NBSP among the code units 0..255).\<close>

definition is_digit :: "char \<Rightarrow> bool" where
  "is_digit c \<longleftrightarrow> 48 \<le> code c \<and> code c \<le> 57"

definition is_alpha :: "char \<Rightarrow> bool" where
  "is_alpha c \<longleftrightarrow> (65 \<le> code c \<and> code c \<le> 90) \<or> (97 \<le> code c \<and> code c \<le> 122)"

definition is_word :: "char \<Rightarrow> bool" where
  "is_word c \<longleftrightarrow> is_alpha c \<or> is_digit c \<or> c = CHR ''_''"

definition is_space :: "char \<Rightarrow> bool" where
  "is_space c \<longleftrightarrow> code c \<in> {9, 10, 11, 12, 13, 32, 160}"

subsection \<open>Regular expressions with backtracking\<close>

text \<open>
  The regular expressions of the source are kept as syntax trees and run by one
  matcher. \<open>ms r s c\<close> lists every way in which \<open>r\<close> matches a prefix of \<open>s\<close>, as the
  rest of the input and the capture groups, in the order in which a backtracking
  matcher tries them: the head of the list is the match that JavaScript reports.
  A greedy star tries one more iteration first, a lazy star tries to stop first, and an
  iteration that consumes nothing is not repeated.
\<close>

type_synonym caps = "(nat \<times> string) list"

datatype rx =
    Empty
  | Cls "char \<Rightarrow> bool"
  | Cat rx rx
  | Alt rx rx
  | Star rx
  | LazyStar rx
  | Grp nat rx
  | Look rx

function ms :: "rx \<Rightarrow> string \<Rightarrow> caps \<Rightarrow> (string \<times> caps) list" where
  "ms Empty s c = [(s, c)]"
| "ms (Cls p) s c = (case s of [] \<Rightarrow> [] | x # xs \<Rightarrow> if p x then [(xs, c)] else [])"
| "ms (Cat a b) s c = concat (map (\<lambda>(s', c'). ms b s' c') (ms a s c))"
| "ms (Alt a b) s c = ms a s c @ ms b s c"
| "ms (Star a) s c =
     concat (map (\<lambda>(s', c'). if length s' < length s then ms (Star a) s' c' else [])
                 (ms a s c))
     @ [(s, c)]"
| "ms (LazyStar a) s c =
     (s, c) # concat (map (\<lambda>(s', c'). if length s' < length s then ms (LazyStar a) s' c' else [])
                          (ms a s c))"
| "ms (Grp n a) s c =
     map (\<lambda>(s', c'). (s', (n, take (length s - length s') s) # c')) (ms a s c)"
| "ms (Look a) s c = (case ms a s c of [] \<Rightarrow> [] | (s', c') # _ \<Rightarrow> [(s, c')])"
  by pat_completeness auto
termination
  by (relation "measures [\<lambda>(r, s, c). size r, \<lambda>(r, s, c). length s]") auto

definition chr :: "char \<Rightarrow> rx" where
  "chr ch = Cls (\<lambda>x. x = ch)"

definition one_of :: "string \<Rightarrow> rx" where
  "one_of chs = Cls (\<lambda>x. x \<in> set chs)"

definition none_of :: "string \<Rightarrow> rx" where
  "none_of chs = Cls (\<lambda>x. x \<notin> set chs)"

definition any_char :: rx where
  "any_char = Cls (\<lambda>x. True)"

definition lit :: "string \<Rightarrow> rx" where
  "lit s = foldr (\<lambda>ch r. Cat (chr ch) r) s Empty"

definition cats :: "rx list \<Rightarrow> rx" where
  "cats rs = foldr Cat rs Empty"

definition Opt :: "rx \<Rightarrow> rx" where
  "Opt r = Alt r Empty"

definition Plus :: "rx \<Rightarrow> rx" where
  "Plus r = Cat r (Star r)"

definition spaces :: rx where
  "spaces = Star (Cls is_space)"

definition digits12 :: rx where
  "digits12 = Cat (Cls is_digit) (Opt (Cls is_digit))"

text \<open>The first match of \<open>r\<close> at the start of \<open>s\<close>: the matched text, the rest, the groups.\<close>

definition match_here :: "rx \<Rightarrow> string \<Rightarrow> (string \<times> string \<times> caps) option" where
  "match_here r s =
     (case ms r s [] of
        [] \<Rightarrow> None
      | (rest, c) # _ \<Rightarrow> Some (take (length s - length rest) s, rest, c))"

text \<open>\<^verbatim>\<open>s.match(r)\<close> without the \<^verbatim>\<open>g\<close> flag: the leftmost match, with its groups.\<close>

fun rx_match :: "rx \<Rightarrow> string \<Rightarrow> (string \<times> caps) option" where
  "rx_match r [] = (case match_here r [] of None \<Rightarrow> None | Some (m, rest, c) \<Rightarrow> Some (m, c))"
| "rx_match r (x # xs) =
     (case match_here r (x # xs) of
        None \<Rightarrow> rx_match r xs
      | Some (m, rest, c) \<Rightarrow> Some (m, c))"

definition group :: "caps \<Rightarrow> nat \<Rightarrow> string option" where
  "group c n = map_of c n"

text \<open>A replacement string: literal text and \<^verbatim>\<open>$n\<close> references; a group that did not
  take part in the match is replaced by the empty string.\<close>

datatype tpl = L string | G nat

fun subst :: "tpl list \<Rightarrow> caps \<Rightarrow> string" where
  "subst [] c = []"
| "subst (L s # ts) c = s @ subst ts c"
| "subst (G n # ts) c = (case group c n of None \<Rightarrow> [] | Some g \<Rightarrow> g) @ subst ts c"

text \<open>\<^verbatim>\<open>s.replace(r, t)\<close> with the \<^verbatim>\<open>g\<close> flag. After an empty match the next
  character is copied and the search goes on behind it.\<close>

function replace_all :: "rx \<Rightarrow> tpl list \<Rightarrow> string \<Rightarrow> string" where
  "replace_all r t s =
     (case match_here r s of
        None \<Rightarrow> (case s of [] \<Rightarrow> [] | x # xs \<Rightarrow> x # replace_all r t xs)
      | Some (m, rest, c) \<Rightarrow>
          if length rest < length s then subst t c @ replace_all r t rest
          else subst t c @ (case s of [] \<Rightarrow> [] | x # xs \<Rightarrow> x # replace_all r t xs))"
  by pat_completeness auto
termination
  by (relation "measure (\<lambda>(r, t, s). length s)") auto

text \<open>\<^verbatim>\<open>s.match(r)\<close> with the \<^verbatim>\<open>g\<close> flag: the matched texts, left to right.\<close>

function match_all :: "rx \<Rightarrow> string \<Rightarrow> string list" where
  "match_all r s =
     (case match_here r s of
        None \<Rightarrow> (case s of [] \<Rightarrow> [] | x # xs \<Rightarrow> match_all r xs)
      | Some (m, rest, c) \<Rightarrow>
          if length rest < length s then m # match_all r rest
          else m # (case s of [] \<Rightarrow> [] | x # xs \<Rightarrow> match_all r xs))"
  by pat_completeness auto
termination
  by (relation "measure (\<lambda>(r, s). length s)") auto

text \<open>\<^verbatim>\<open>s.split(r)\<close> for a separator \<open>r\<close> that matches no empty text: \<open>acc\<close> is the piece
  read so far.\<close>

function split_rx :: "rx \<Rightarrow> string \<Rightarrow> string \<Rightarrow> string list" where
  "split_rx r acc s =
     (case s of
        [] \<Rightarrow> [acc]
      | x # xs \<Rightarrow>
          (case match_here r s of
             None \<Rightarrow> split_rx r (acc @ [x]) xs
           | Some (m, rest, c) \<Rightarrow>
               if length rest < length s then acc # split_rx r [] rest
               else split_rx r (acc @ [x]) xs))"
  by pat_completeness auto
termination
  by (relation "measure (\<lambda>(r, acc, s). length s)") auto

text \<open>\<^verbatim>\<open>s.replace(pat, rep)\<close> with a string pattern: the first occurrence only.\<close>

fun replace_first :: "string \<Rightarrow> string \<Rightarrow> string \<Rightarrow> string" where
  "replace_first pat rep [] = (if pat = [] then rep else [])"
| "replace_first pat rep (x # xs) =
     (if take (length pat) (x # xs) = pat then rep @ drop (length pat) (x # xs)
      else x # replace_first pat rep xs)"

definition trim :: "string \<Rightarrow> string" where
  "trim s = rev (dropWhile is_space (rev (dropWhile is_space s)))"

definition startsWith :: "string \<Rightarrow> string \<Rightarrow> bool" where
  "startsWith s p \<longleftrightarrow> take (length p) s = p"

definition endsWith :: "string \<Rightarrow> string \<Rightarrow> bool" where
  "endsWith s p \<longleftrightarrow> length p \<le> length s \<and> drop (length s - length p) s = p"

subsection \<open>Run-time values\<close>

text \<open>
  A JavaScript number is \<open>NaN\<close>, an infinity, or a finite decimal \<open>Dec m e\<close>, which stands
  for \<open>m \<times> 10\<^sup>e\<close>; the rounding of IEEE doubles is not modelled. A value is what
  \<^verbatim>\<open>JSON.parse\<close> and \<^verbatim>\<open>JSON5.parse\<close> can return, and \<^verbatim>\<open>undefined\<close> for a property
  that an object does not have. An object keeps its properties in the order of insertion.
\<close>

datatype jsnum = NaN | PosInf | NegInf | Dec int int

datatype jv =
    JUndef
  | JNull
  | JBool bool
  | JNum jsnum
  | JStr string
  | JArr "jv list"
  | JObj "(string \<times> jv) list"

text \<open>An exception carries its message; the messages of a \<^verbatim>\<open>TypeError\<close> are those of
  Node.js.\<close>

datatype error = TypeError string | SyntaxError string

definition message :: "error \<Rightarrow> string" where
  "message e = (case e of TypeError m \<Rightarrow> m | SyntaxError m \<Rightarrow> m)"

definition cannot_read :: "string \<Rightarrow> string \<Rightarrow> error" where
  "cannot_read what k =
     TypeError (''Cannot read properties of '' @ what @ '' (reading '' @ [sq] @ k @ [sq] @ '')'')"

subsection \<open>\<^verbatim>\<open>sanitizeJsonString\<close>\<close>

definition digit_char :: "nat \<Rightarrow> char" where
  "digit_char n = char_of (48 + n)"

function show_nat :: "nat \<Rightarrow> string" where
  "show_nat n = (if n < 10 then [digit_char n] else show_nat (n div 10) @ [digit_char (n mod 10)])"
  by pat_completeness auto
termination
  by (relation "measure id") auto

text \<open>Step 3: \<^verbatim>\<open>/\\["\\/bfnrt]/g\<close>, the placeholder \<^verbatim>\<open>__ESCAPE_${index}__\<close>, the two
  \<^verbatim>\<open>forEach\<close> loops and the removal of every other backslash between them.\<close>

definition valid_escape :: rx where
  "valid_escape = Cat (chr bsl) (one_of (dq # bsl # ''/bfnrt''))"

definition placeholder :: "nat \<Rightarrow> string" where
  "placeholder i = ''__ESCAPE_'' @ show_nat i @ ''__''"

definition protect_escapes :: "string list \<Rightarrow> string \<Rightarrow> string" where
  "protect_escapes escs s =
     fold (\<lambda>(i, m) cleaned. replace_first m (placeholder i) cleaned) (enumerate 0 escs) s"

definition restore_escapes :: "string list \<Rightarrow> string \<Rightarrow> string" where
  "restore_escapes escs s =
     fold (\<lambda>(i, m) cleaned. replace_first (placeholder i) m cleaned) (enumerate 0 escs) s"

definition handle_escapes :: "string \<Rightarrow> string" where
  "handle_escapes s =
     (let escs = match_all valid_escape s;
          cleaned = protect_escapes escs s;
          cleaned = replace_all (chr bsl) [] cleaned
      in restore_escapes escs cleaned)"

text \<open>Step 4: the chain of \<^verbatim>\<open>replace\<close> calls, one definition for each regular
  expression, in the order of the source.\<close>

definition quote_class :: rx where
  "quote_class = one_of [sq, dq]"

definition key_rx :: rx where
  \<comment> \<open>\<^verbatim>\<open>/(['"])?([a-zA-Z0-9_]+)(['"])?:/g\<close>\<close>
  "key_rx = cats [Opt (Grp 1 quote_class), Grp 2 (Plus (Cls is_word)), Opt (Grp 3 quote_class),
                  chr CHR '':'']"

definition single_quoted_value_rx :: rx where
  \<comment> \<open>\<^verbatim>\<open>/:\s*'([^']*)'/g\<close>\<close>
  "single_quoted_value_rx = cats [chr CHR '':'', spaces, chr sq, Grp 1 (Star (none_of [sq])), chr sq]"

definition bare_value_rx :: rx where
  \<comment> \<open>\<^verbatim>\<open>/:\s*([a-zA-Z][a-zA-Z0-9_\s]*[a-zA-Z0-9_])(?=\s*[,}])/g\<close>\<close>
  "bare_value_rx =
     cats [chr CHR '':'', spaces,
           Grp 1 (cats [Cls is_alpha, Star (Cls (\<lambda>c. is_word c \<or> is_space c)), Cls is_word]),
           Look (Cat spaces (one_of '',}''))]"

definition between :: "char \<Rightarrow> char \<Rightarrow> rx" where
  \<comment> \<open>\<^verbatim>\<open>a\s*b\<close>\<close>
  "between a b = cats [chr a, spaces, chr b]"

definition fix_syntax :: "string \<Rightarrow> string" where
  \<open>fix_syntax s =
     (let cleaned = replace_all key_rx [L [dq], G 2, L (dq # '':'')] s;
          cleaned = replace_all single_quoted_value_rx [L '': "'', G 1, L [dq]] cleaned;
          cleaned = replace_all bare_value_rx [L '': "'', G 1, L [dq]] cleaned;
          cleaned = replace_all (between CHR '','' CHR ''}'') [L ''}''] cleaned;
          cleaned = replace_all (between CHR '','' CHR '']'') [L '']''] cleaned;
          cleaned = replace_all (between CHR ''}'' CHR ''{'') [L ''}, {''] cleaned;
          cleaned = replace_all (between CHR '']'' CHR ''['') [L ''], [''] cleaned;
          cleaned = replace_all (between dq CHR ''['') [L (dq # '', ['')] cleaned;
          cleaned = replace_all (between CHR '']'' dq) [L (''], '' @ [dq])] cleaned;
          cleaned = replace_all (between CHR ''}'' CHR ''['') [L ''}, [''] cleaned;
          cleaned = replace_all (between CHR '']'' CHR ''{'') [L ''], {''] cleaned;
          cleaned = replace_all (cats [chr dq, chr CHR '','', spaces, chr dq])
                      [L (dq # '', '' @ [dq])] cleaned;
          cleaned = replace_all (cats [chr dq, spaces, chr CHR '','', spaces, chr dq])
                      [L (dq # '', '' @ [dq])] cleaned;
          cleaned = replace_all (cats [chr dq, spaces, chr nl, spaces, chr dq]) [L '' ''] cleaned
      in replace_all (chr nl) [L '' ''] cleaned)\<close>

text \<open>Step 5: the envelope.\<close>

definition ensure_object :: "string \<Rightarrow> string" where
  "ensure_object s =
     (let cleaned = (if \<not> startsWith s ''{'' then ''{'' @ s else s)
      in if \<not> endsWith cleaned ''}'' then cleaned @ ''}'' else cleaned)"

text \<open>Step 6: \<^verbatim>\<open>/\\\\"/g\<close> is replaced by a backslash and a quote; then the loop over the
  characters, with its two flags. The branches are tested in the order of the source.\<close>

definition collapse_escaped_quotes :: "string \<Rightarrow> string" where
  "collapse_escaped_quotes s = replace_all (cats [chr bsl, chr bsl, chr dq]) [L [bsl, dq]] s"

text \<open>What the collapse computes, by recursion over the text; the proofs use it in place
  of the matcher.\<close>

fun collapse3 :: "string \<Rightarrow> string" where
  "collapse3 (a # b # d # rest) =
     (if a = bsl \<and> b = bsl \<and> d = dq then bsl # dq # collapse3 rest
      else a # collapse3 (b # d # rest))"
| "collapse3 s = s"

fun quote_pass :: "bool \<Rightarrow> bool \<Rightarrow> string \<Rightarrow> string" where
  "quote_pass inString inEscape [] = []"
| "quote_pass inString inEscape (ch # cs) =
     (if inEscape then ch # quote_pass inString False cs
      else if ch = bsl then ch # quote_pass inString True cs
      else if ch = dq then ch # quote_pass (\<not> inString) False cs
      else if inString \<and> (ch = dq \<or> ch = sq) then CHR '' '' # quote_pass inString False cs
      else ch # quote_pass inString False cs)"

definition repair_text :: "string \<Rightarrow> string" where
  \<comment> \<open>steps 2 to 6, up to the loop over the characters\<close>
  "repair_text jsonStr =
     collapse_escaped_quotes (ensure_object (fix_syntax (handle_escapes (trim jsonStr))))"

text \<open>Steps 2 to 6. Step 1 and step 7 write to the log, and the \<^verbatim>\<open>JSON.parse\<close> at the
  end is a \<^verbatim>\<open>try\<close> block of its own whose result is logged and dropped.\<close>

definition sanitize_steps :: "string \<Rightarrow> string" where
  "sanitize_steps jsonStr =
     (let cleaned = repair_text jsonStr;
          result = quote_pass False False cleaned
      in if result = [] then cleaned else result)"

definition fallback_text :: string where
  \<open>fallback_text =
     ''{"vendorName":"Unknown Vendor","transactionDate":"2023-01-01","totalAmount":0,"items":[]}''\<close>

text \<open>
  The body of the \<^verbatim>\<open>try\<close> block. The annotation \<^verbatim>\<open>jsonStr: string\<close> is erased at run
  time, so the argument is a run-time value: a string has the methods that the body calls,
  and no step fails on it; \<^verbatim>\<open>undefined\<close> and \<^verbatim>\<open>null\<close> have no \<^verbatim>\<open>length\<close> and any
  other value has no \<^verbatim>\<open>trim\<close> (or, with a \<^verbatim>\<open>length\<close> above 500, no
  \<^verbatim>\<open>substring\<close>), which raises a \<^verbatim>\<open>TypeError\<close>. The message of the exception is
  logged and has no other use.
\<close>

definition sanitize_try :: "jv \<Rightarrow> error + string" where
  "sanitize_try jsonStr =
     (case jsonStr of
        JStr s \<Rightarrow> Inr (sanitize_steps s)
      | JUndef \<Rightarrow> Inl (cannot_read ''undefined'' ''length'')
      | JNull \<Rightarrow> Inl (cannot_read ''null'' ''length'')
      | _ \<Rightarrow> Inl (TypeError ''jsonStr.trim is not a function''))"

definition sanitizeJsonString :: "jv \<Rightarrow> string" where
  "sanitizeJsonString jsonStr =
     (case sanitize_try jsonStr of Inr cleaned \<Rightarrow> cleaned | Inl e \<Rightarrow> fallback_text)"

subsection \<open>Numbers and their text\<close>

text \<open>\<open>dec m e\<close> is the number \<open>m \<times> 10\<^sup>e\<close> in its one representation: a mantissa that
  does not end in 0, and \<open>Dec 0 0\<close> for zero (the sign of zero is not modelled).\<close>

function norm10 :: "int \<Rightarrow> int \<Rightarrow> int \<times> int" where
  "norm10 m e =
     (if m = 0 then (0, 0)
      else if m mod 10 = 0 then norm10 (m div 10) (e + 1)
      else (m, e))"
  by pat_completeness auto
termination
  by (relation "measure (\<lambda>(m, e). nat \<bar>m\<bar>)") auto

definition dec :: "int \<Rightarrow> int \<Rightarrow> jsnum" where
  "dec m e = (case norm10 m e of (m', e') \<Rightarrow> Dec m' e')"

definition digits_val :: "string \<Rightarrow> nat" where
  "digits_val ds = foldl (\<lambda>n d. 10 * n + (code d - 48)) 0 ds"

text \<open>An exponent part \<^verbatim>\<open>e\<close>, \<^verbatim>\<open>E\<close> with an optional sign and at least one digit; text
  that has none counts as the exponent 0 and is not read.\<close>

definition exponent_part :: "string \<Rightarrow> int" where
  "exponent_part s =
     (case s of
        [] \<Rightarrow> 0
      | c # r \<Rightarrow>
          if c = CHR ''e'' \<or> c = CHR ''E'' then
            (let neg = (r \<noteq> [] \<and> hd r = CHR ''-'');
                 r' = (if r \<noteq> [] \<and> (hd r = CHR ''-'' \<or> hd r = CHR ''+'') then tl r else r);
                 ds = takeWhile is_digit r'
             in if ds = [] then 0
                else if neg then - int (digits_val ds) else int (digits_val ds))
          else 0)"

text \<open>\<^verbatim>\<open>parseFloat\<close>: leading white space is skipped, the longest prefix that is a decimal
  literal (or a signed \<^verbatim>\<open>Infinity\<close>) is read, and text without such a prefix is
  \<open>NaN\<close>.\<close>

definition decimal_literal :: "bool \<Rightarrow> string \<Rightarrow> jsnum" where
  \<comment> \<open>the text behind the sign; \<open>neg\<close> tells whether the sign was a minus\<close>
  "decimal_literal neg u =
     (if startsWith u ''Infinity'' then (if neg then NegInf else PosInf)
      else
        (let ip = takeWhile is_digit u;
             r1 = dropWhile is_digit u;
             dot = (r1 \<noteq> [] \<and> hd r1 = CHR ''.'');
             fp = (if dot then takeWhile is_digit (tl r1) else []);
             r2 = (if dot then dropWhile is_digit (tl r1) else r1)
         in if ip = [] \<and> fp = [] then NaN
            else
              (let m = int (digits_val (ip @ fp))
               in dec (if neg then - m else m) (exponent_part r2 - int (length fp)))))"

definition parseFloat :: "string \<Rightarrow> jsnum" where
  "parseFloat s =
     (let t = dropWhile is_space s;
          neg = (t \<noteq> [] \<and> hd t = CHR ''-'');
          u = (if t \<noteq> [] \<and> (hd t = CHR ''-'' \<or> hd t = CHR ''+'') then tl t else t)
      in decimal_literal neg u)"

text \<open>\<^verbatim>\<open>Number::toString\<close>: with \<open>k\<close> digits and the decimal point behind the \<open>n\<close>-th
  digit, plain notation for \<open>-6 < n \<le> 21\<close> and exponent notation outside.\<close>

definition show_int :: "int \<Rightarrow> string" where
  "show_int i = (if i < 0 then CHR ''-'' # show_nat (nat (- i)) else show_nat (nat i))"

definition num_to_string :: "jsnum \<Rightarrow> string" where
  "num_to_string x =
     (case x of
        NaN \<Rightarrow> ''NaN''
      | PosInf \<Rightarrow> ''Infinity''
      | NegInf \<Rightarrow> ''-Infinity''
      | Dec m e \<Rightarrow>
          if m = 0 then ''0''
          else
            (let ds = show_nat (nat \<bar>m\<bar>);
                 k = int (length ds);
                 n = k + e;
                 body =
                   (if k \<le> n \<and> n \<le> 21 then ds @ replicate (nat (n - k)) CHR ''0''
                    else if 0 < n \<and> n \<le> 21 then take (nat n) ds @ ''.'' @ drop (nat n) ds
                    else if - 6 < n \<and> n \<le> 0 then ''0.'' @ replicate (nat (- n)) CHR ''0'' @ ds
                    else
                      (let ex = (if n - 1 < 0 then CHR ''-'' # show_nat (nat (1 - n))
                                 else CHR ''+'' # show_nat (nat (n - 1)))
                       in if k = 1 then ds @ ''e'' @ ex
                          else take 1 ds @ ''.'' @ drop 1 ds @ ''e'' @ ex))
             in if m < 0 then CHR ''-'' # body else body))"

subsection \<open>Coercions of values\<close>

text \<open>\<^verbatim>\<open>String(v)\<close>. An array joins the text of its elements with commas, \<^verbatim>\<open>null\<close> and
  \<^verbatim>\<open>undefined\<close> elements giving no text. An object of parsed data is
  \<^verbatim>\<open>[object Object]\<close>, unless it has a property \<^verbatim>\<open>toString\<close> of its own: that
  property is no function, and the conversion raises a \<^verbatim>\<open>TypeError\<close>.\<close>

fun js_string :: "jv \<Rightarrow> error + string"
  and js_join :: "jv list \<Rightarrow> error + string" where
  "js_string JUndef = Inr ''undefined''"
| "js_string JNull = Inr ''null''"
| "js_string (JBool b) = Inr (if b then ''true'' else ''false'')"
| "js_string (JNum x) = Inr (num_to_string x)"
| "js_string (JStr s) = Inr s"
| "js_string (JArr xs) = js_join xs"
| "js_string (JObj kvs) =
     (if ''toString'' \<in> set (map fst kvs)
      then Inl (TypeError ''Cannot convert object to primitive value'')
      else Inr ''[object Object]'')"
| "js_join [] = Inr []"
| "js_join (x # xs) =
     (case (if x = JNull \<or> x = JUndef then Inr [] else js_string x) of
        Inl e \<Rightarrow> Inl e
      | Inr a \<Rightarrow>
          if xs = [] then Inr a
          else (case js_join xs of Inl e \<Rightarrow> Inl e | Inr b \<Rightarrow> Inr (a @ '','' @ b)))"

text \<open>Truthiness, and \<^verbatim>\<open>a || b\<close>.\<close>

fun truthy :: "jv \<Rightarrow> bool" where
  "truthy JUndef = False"
| "truthy JNull = False"
| "truthy (JBool b) = b"
| "truthy (JNum NaN) = False"
| "truthy (JNum (Dec m e)) = (m \<noteq> 0)"
| "truthy (JNum x) = True"
| "truthy (JStr s) = (s \<noteq> [])"
| "truthy (JArr xs) = True"
| "truthy (JObj kvs) = True"

definition or_else :: "jv \<Rightarrow> jv \<Rightarrow> jv" where
  "or_else a b = (if truthy a then a else b)"

text \<open>\<^verbatim>\<open>v.k\<close> for the property names that the source reads (\<^verbatim>\<open>vendorName\<close>,
  \<^verbatim>\<open>transactionDate\<close>, \<^verbatim>\<open>totalAmount\<close>, \<^verbatim>\<open>items\<close>, \<^verbatim>\<open>name\<close>, \<^verbatim>\<open>quantity\<close>,
  \<^verbatim>\<open>price\<close>): reading a property of \<^verbatim>\<open>null\<close> or \<^verbatim>\<open>undefined\<close> raises a
  \<^verbatim>\<open>TypeError\<close>, an object gives the property or \<^verbatim>\<open>undefined\<close>, and no other value
  has a property of one of these names.\<close>

fun get_prop :: "jv \<Rightarrow> string \<Rightarrow> error + jv" where
  "get_prop JUndef k = Inl (cannot_read ''undefined'' k)"
| "get_prop JNull k = Inl (cannot_read ''null'' k)"
| "get_prop (JObj kvs) k = Inr (case map_of kvs k of None \<Rightarrow> JUndef | Some v \<Rightarrow> v)"
| "get_prop v k = Inr JUndef"

definition and_then :: "error + 'a \<Rightarrow> ('a \<Rightarrow> error + 'b) \<Rightarrow> error + 'b" where
  "and_then m f = (case m of Inl e \<Rightarrow> Inl e | Inr a \<Rightarrow> f a)"

text \<open>\<^verbatim>\<open>parseFloat(String(v || d))\<close>, the coercion of the three numeric fields.\<close>

definition coerce_number :: "jv \<Rightarrow> string \<Rightarrow> error + jsnum" where
  "coerce_number v d = and_then (js_string (or_else v (JStr d))) (\<lambda>s. Inr (parseFloat s))"

subsection \<open>\<^verbatim>\<open>validateAndCleanData\<close>\<close>

record receipt =
  vendorName :: jv
  transactionDate :: jv
  totalAmount :: jsnum
  items :: "jv list"

text \<open>\<open>now\<close> is \<^verbatim>\<open>new Date().toISOString()\<close>, the time of the call as text; the functions
  of one call share it, where the source reads the clock each time.\<close>

definition defaultData :: "string \<Rightarrow> receipt" where
  "defaultData now =
     \<lparr>vendorName = JStr ''Unknown Vendor'', transactionDate = JStr now,
      totalAmount = Dec 0 0, items = []\<rparr>"

definition item_object :: "jv \<Rightarrow> jsnum \<Rightarrow> jsnum \<Rightarrow> jv" where
  "item_object n q p = JObj [(''name'', n), (''quantity'', JNum q), (''price'', JNum p)]"

definition clean_item :: "jv \<Rightarrow> error + jv" where
  "clean_item item =
     and_then (get_prop item ''name'') (\<lambda>n.
     and_then (get_prop item ''quantity'') (\<lambda>q.
     and_then (coerce_number q ''1'') (\<lambda>quantity.
     and_then (get_prop item ''price'') (\<lambda>p.
     and_then (coerce_number p ''0'') (\<lambda>price.
       Inr (item_object (or_else n (JStr ''Unnamed Item'')) quantity price))))))"

fun map_items :: "jv list \<Rightarrow> error + jv list" where
  "map_items [] = Inr []"
| "map_items (x # xs) =
     (case clean_item x of
        Inl e \<Rightarrow> Inl e
      | Inr y \<Rightarrow> (case map_items xs of Inl e \<Rightarrow> Inl e | Inr ys \<Rightarrow> Inr (y # ys)))"

fun is_object :: "jv \<Rightarrow> bool" where
  \<comment> \<open>\<^verbatim>\<open>typeof v === 'object'\<close>\<close>
  "is_object JNull = True"
| "is_object (JArr xs) = True"
| "is_object (JObj kvs) = True"
| "is_object v = False"

definition validateAndCleanData :: "string \<Rightarrow> jv \<Rightarrow> error + receipt" where
  "validateAndCleanData now data =
     (if \<not> (truthy data \<and> is_object data) then Inr (defaultData now)
      else
        and_then (get_prop data ''vendorName'') (\<lambda>v.
        and_then (get_prop data ''transactionDate'') (\<lambda>d.
        and_then (get_prop data ''totalAmount'') (\<lambda>t.
        and_then (coerce_number t ''0'') (\<lambda>total.
        and_then (get_prop data ''items'') (\<lambda>its.
        and_then (case its of JArr xs \<Rightarrow> map_items xs | _ \<Rightarrow> Inr []) (\<lambda>cleaned.
          Inr \<lparr>vendorName = or_else v (JStr ''Unknown Vendor''),
               transactionDate = or_else d (JStr now),
               totalAmount = total, items = cleaned\<rparr>)))))))"

subsection \<open>\<^verbatim>\<open>JSON.parse\<close>\<close>

text \<open>
  The strict parser of the platform, as a recursive-descent parser of the JSON grammar.
  It is used where a claim speaks of strict parsing of a concrete text; the pipeline
  below takes its two parsers as parameters. \<open>fuel\<close> bounds the number of nested calls;
  every call reads at least one character, so the length of the text is enough. An
  escape \<^verbatim>\<open>\uXXXX\<close> above 255 has no code unit in the model and is refused.
\<close>

definition is_json_ws :: "char \<Rightarrow> bool" where
  "is_json_ws c \<longleftrightarrow> code c \<in> {9, 10, 13, 32}"

definition skip_ws :: "string \<Rightarrow> string" where
  "skip_ws s = dropWhile is_json_ws s"

definition hex_val :: "char \<Rightarrow> nat option" where
  "hex_val c =
     (if is_digit c then Some (code c - 48)
      else if 97 \<le> code c \<and> code c \<le> 102 then Some (code c - 87)
      else if 65 \<le> code c \<and> code c \<le> 70 then Some (code c - 55)
      else None)"

definition hex4 :: "string \<Rightarrow> nat option" where
  "hex4 s =
     (case map hex_val s of
        [Some a, Some b, Some c, Some d] \<Rightarrow> Some (((a * 16 + b) * 16 + c) * 16 + d)
      | _ \<Rightarrow> None)"

definition unescape :: "char \<Rightarrow> char option" where
  "unescape e =
     (if e = dq \<or> e = bsl \<or> e = CHR ''/'' then Some e
      else if e = CHR ''b'' then Some (CHR 0x08)
      else if e = CHR ''f'' then Some (CHR 0x0C)
      else if e = CHR ''n'' then Some (CHR 0x0A)
      else if e = CHR ''r'' then Some (CHR 0x0D)
      else if e = CHR ''t'' then Some (CHR 0x09)
      else None)"

definition cons_text :: "char \<Rightarrow> (string \<times> string) option \<Rightarrow> (string \<times> string) option" where
  "cons_text ch r = (case r of None \<Rightarrow> None | Some (t, rest) \<Rightarrow> Some (ch # t, rest))"

text \<open>The text of a string behind its opening quote, and the input behind its closing
  quote.\<close>

fun json_string_body :: "string \<Rightarrow> (string \<times> string) option" where
  "json_string_body [] = None"
| "json_string_body (c # cs) =
     (if c = dq then Some ([], cs)
      else if c = bsl then
        (case cs of
           [] \<Rightarrow> None
         | e # r \<Rightarrow>
             if e = CHR ''u'' then
               (case hex4 (take 4 r) of
                  None \<Rightarrow> None
                | Some n \<Rightarrow> if n < 256 then cons_text (char_of n) (json_string_body (drop 4 r))
                            else None)
             else
               (case unescape e of
                  None \<Rightarrow> None
                | Some ch \<Rightarrow> cons_text ch (json_string_body r)))
      else if code c < 32 then None
      else cons_text c (json_string_body cs))"

definition json_number :: "string \<Rightarrow> (jsnum \<times> string) option" where
  "json_number s =
     (let neg = (s \<noteq> [] \<and> hd s = CHR ''-'');
          u = (if neg then tl s else s);
          ip = takeWhile is_digit u;
          r1 = dropWhile is_digit u;
          dot = (r1 \<noteq> [] \<and> hd r1 = CHR ''.'');
          fp = (if dot then takeWhile is_digit (tl r1) else []);
          r2 = (if dot then dropWhile is_digit (tl r1) else r1);
          ex = (r2 \<noteq> [] \<and> (hd r2 = CHR ''e'' \<or> hd r2 = CHR ''E''));
          r3 = (if ex \<and> tl r2 \<noteq> [] \<and> (hd (tl r2) = CHR ''-'' \<or> hd (tl r2) = CHR ''+'')
                then tl (tl r2) else tl r2);
          ed = (if ex then takeWhile is_digit r3 else []);
          rest = (if ex then dropWhile is_digit r3 else r2);
          m = int (digits_val (ip @ fp))
      in if ip = [] \<or> (1 < length ip \<and> hd ip = CHR ''0'') \<or> (dot \<and> fp = []) \<or> (ex \<and> ed = [])
         then None
         else Some (dec (if neg then - m else m) (exponent_part r2 - int (length fp)), rest))"

text \<open>A property that is written twice keeps its place and takes the later value.\<close>

fun put_prop :: "string \<Rightarrow> jv \<Rightarrow> (string \<times> jv) list \<Rightarrow> (string \<times> jv) list" where
  "put_prop k v [] = [(k, v)]"
| "put_prop k v ((k', v') # kvs) =
     (if k = k' then (k, v) # kvs else (k', v') # put_prop k v kvs)"

fun json_value :: "nat \<Rightarrow> string \<Rightarrow> (jv \<times> string) option"
  and json_elements :: "nat \<Rightarrow> jv list \<Rightarrow> string \<Rightarrow> (jv \<times> string) option"
  and json_members :: "nat \<Rightarrow> (string \<times> jv) list \<Rightarrow> string \<Rightarrow> (jv \<times> string) option" where
  "json_value 0 s = None"
| "json_value (Suc fuel) s =
     (case skip_ws s of
        [] \<Rightarrow> None
      | c # cs \<Rightarrow>
          if c = CHR ''{'' then
            (case skip_ws cs of
               [] \<Rightarrow> None
             | d # ds \<Rightarrow> if d = CHR ''}'' then Some (JObj [], ds) else json_members fuel [] cs)
          else if c = CHR ''['' then
            (case skip_ws cs of
               [] \<Rightarrow> None
             | d # ds \<Rightarrow> if d = CHR '']'' then Some (JArr [], ds) else json_elements fuel [] cs)
          else if c = dq then
            (case json_string_body cs of None \<Rightarrow> None | Some (t, r) \<Rightarrow> Some (JStr t, r))
          else if startsWith (c # cs) ''true'' then Some (JBool True, drop 4 (c # cs))
          else if startsWith (c # cs) ''false'' then Some (JBool False, drop 5 (c # cs))
          else if startsWith (c # cs) ''null'' then Some (JNull, drop 4 (c # cs))
          else (case json_number (c # cs) of None \<Rightarrow> None | Some (x, r) \<Rightarrow> Some (JNum x, r)))"
| "json_elements 0 acc s = None"
| "json_elements (Suc fuel) acc s =
     (case json_value fuel s of
        None \<Rightarrow> None
      | Some (v, r) \<Rightarrow>
          (case skip_ws r of
             [] \<Rightarrow> None
           | c # cs \<Rightarrow>
               if c = CHR '','' then json_elements fuel (acc @ [v]) cs
               else if c = CHR '']'' then Some (JArr (acc @ [v]), cs)
               else None))"
| "json_members 0 acc s = None"
| "json_members (Suc fuel) acc s =
     (case skip_ws s of
        [] \<Rightarrow> None
      | c # cs \<Rightarrow>
          if c \<noteq> dq then None
          else
            (case json_string_body cs of
               None \<Rightarrow> None
             | Some (k, r) \<Rightarrow>
                 (case skip_ws r of
                    [] \<Rightarrow> None
                  | d # ds \<Rightarrow>
                      if d \<noteq> CHR '':'' then None
                      else
                        (case json_value fuel ds of
                           None \<Rightarrow> None
                         | Some (v, r') \<Rightarrow>
                             (case skip_ws r' of
                                [] \<Rightarrow> None
                              | e # es \<Rightarrow>
                                  if e = CHR '','' then json_members fuel (put_prop k v acc) es
                                  else if e = CHR ''}'' then Some (JObj (put_prop k v acc), es)
                                  else None)))))"

definition JSON_parse :: "string \<Rightarrow> error + jv" where
  "JSON_parse s =
     (case json_value (Suc (length s)) s of
        None \<Rightarrow> Inl (SyntaxError ''Unexpected token'')
      | Some (v, r) \<Rightarrow> if skip_ws r = [] then Inr v else Inl (SyntaxError ''Unexpected token''))"

subsection \<open>\<^verbatim>\<open>getPositionFromLineCol\<close> and the diagnostic of the lenient parser\<close>

fun split_on :: "char \<Rightarrow> string \<Rightarrow> string list" where
  \<comment> \<open>\<^verbatim>\<open>text.split('\n')\<close>\<close>
  "split_on sep [] = [[]]"
| "split_on sep (x # xs) =
     (let r = split_on sep xs in if x = sep then [] # r else (x # hd r) # tl r)"

text \<open>The loop adds the length of each of the first \<open>line - 1\<close> lines, as far as there are
  lines, and one for its line break.\<close>

definition getPositionFromLineCol :: "string \<Rightarrow> int \<Rightarrow> int \<Rightarrow> int" where
  "getPositionFromLineCol text line col =
     (let lines = split_on nl text;
          position = foldl (\<lambda>p l. p + int (length l) + 1) 0 (take (nat (line - 1)) lines)
      in if line \<le> int (length lines) then position + (col - 1) else position)"

definition substring :: "string \<Rightarrow> int \<Rightarrow> int \<Rightarrow> string" where
  \<comment> \<open>\<^verbatim>\<open>s.substring(a, b)\<close>: both ends are clamped to the string and put in order\<close>
  "substring s a b =
     (let n = int (length s);
          a' = max 0 (min n a);
          b' = max 0 (min n b);
          lo = min a' b';
          hi = max a' b'
      in take (nat (hi - lo)) (drop (nat lo) s))"

fun str_includes :: "string \<Rightarrow> string \<Rightarrow> bool" where
  \<comment> \<open>\<^verbatim>\<open>s.includes(p)\<close>\<close>
  "str_includes [] p = (p = [])"
| "str_includes (x # xs) p = (take (length p) (x # xs) = p \<or> str_includes xs p)"

definition at_line_col_rx :: rx where
  \<comment> \<open>\<^verbatim>\<open>/at (\d+):(\d+)/\<close>\<close>
  "at_line_col_rx =
     cats [lit ''at '', Grp 1 (Plus (Cls is_digit)), chr CHR '':'', Grp 2 (Plus (Cls is_digit))]"

definition group_text :: "caps \<Rightarrow> nat \<Rightarrow> string" where
  "group_text c n = (case group c n of None \<Rightarrow> [] | Some g \<Rightarrow> g)"

text \<open>What the \<^verbatim>\<open>catch\<close> block of the lenient parse logs: the position and the text around
  it, if the message holds a line and a column.\<close>

definition error_context :: "string \<Rightarrow> string \<Rightarrow> (int \<times> string) option" where
  "error_context msg sanitizedJson =
     (if str_includes msg ''at'' then
        (case rx_match at_line_col_rx msg of
           None \<Rightarrow> None
         | Some (m, c) \<Rightarrow>
             (let line = int (digits_val (group_text c 1));
                  col = int (digits_val (group_text c 2));
                  position = getPositionFromLineCol sanitizedJson line col
              in if position \<noteq> - 1
                 then Some (position,
                            substring sanitizedJson (max 0 (position - 20))
                              (min (int (length sanitizedJson)) (position + 20)))
                 else None))
      else None)"

subsection \<open>\<^verbatim>\<open>extractDataWithRegex\<close>\<close>

definition string_field_rx :: "string \<Rightarrow> rx" where
  \<comment> \<open>\<^verbatim>\<open>/["']key["']\s*:\s*["']([^"']+)["']/\<close>\<close>
  "string_field_rx key =
     cats [quote_class, lit key, quote_class, spaces, chr CHR '':'', spaces,
           quote_class, Grp 1 (Plus (none_of [dq, sq])), quote_class]"

definition number_field_rx :: "string \<Rightarrow> rx" where
  \<comment> \<open>\<^verbatim>\<open>/["']key["']\s*:\s*([\d.]+)/\<close>\<close>
  "number_field_rx key =
     cats [quote_class, lit key, quote_class, spaces, chr CHR '':'', spaces,
           Grp 1 (Plus (Cls (\<lambda>c. is_digit c \<or> c = CHR ''.'')))]"

definition items_rx :: rx where
  \<comment> \<open>\<^verbatim>\<open>/["']items["']\s*:\s*\[([\s\S]*?)\]/\<close>\<close>
  "items_rx =
     cats [quote_class, lit ''items'', quote_class, spaces, chr CHR '':'', spaces,
           chr CHR ''['', Grp 1 (LazyStar any_char), chr CHR '']'']"

definition item_boundary_rx :: rx where
  \<comment> \<open>\<^verbatim>\<open>/\}\s*,\s*\{/\<close>\<close>
  "item_boundary_rx = cats [chr CHR ''}'', spaces, chr CHR '','', spaces, chr CHR ''{'']"

definition first_group :: "rx \<Rightarrow> string \<Rightarrow> string option" where
  "first_group r s = (case rx_match r s of None \<Rightarrow> None | Some (m, c) \<Rightarrow> Some (group_text c 1))"

text \<open>The innermost \<^verbatim>\<open>catch\<close>: the three fields of one item, read by regular
  expressions.\<close>

definition item_fields :: "string \<Rightarrow> jv" where
  "item_fields sanitizedItemStr =
     item_object
       (case first_group (string_field_rx ''name'') sanitizedItemStr of
          Some n \<Rightarrow> JStr n | None \<Rightarrow> JStr ''Unknown Item'')
       (case first_group (number_field_rx ''quantity'') sanitizedItemStr of
          Some q \<Rightarrow> parseFloat q | None \<Rightarrow> Dec 1 0)
       (case first_group (number_field_rx ''price'') sanitizedItemStr of
          Some p \<Rightarrow> parseFloat p | None \<Rightarrow> Dec 0 0)"

text \<open>One element of \<^verbatim>\<open>itemStrings.map\<close>. \<open>strict\<close> and \<open>lenient\<close> stand for
  \<^verbatim>\<open>JSON.parse\<close> and \<^verbatim>\<open>JSON5.parse\<close>.\<close>

definition extract_item ::
  "(string \<Rightarrow> error + jv) \<Rightarrow> (string \<Rightarrow> error + jv) \<Rightarrow> string \<Rightarrow> jv" where
  "extract_item strict lenient itemStr0 =
     (let itemStr = (if \<not> startsWith (trim itemStr0) ''{'' then ''{'' @ itemStr0 else itemStr0);
          itemStr = (if \<not> endsWith (trim itemStr) ''}'' then itemStr @ ''}'' else itemStr);
          sanitizedItemStr = sanitizeJsonString (JStr itemStr)
      in case strict sanitizedItemStr of
           Inr v \<Rightarrow> v
         | Inl e \<Rightarrow>
             (case lenient sanitizedItemStr of
                Inr v \<Rightarrow> v
              | Inl e2 \<Rightarrow> item_fields sanitizedItemStr))"

definition extractDataWithRegex ::
  "(string \<Rightarrow> error + jv) \<Rightarrow> (string \<Rightarrow> error + jv) \<Rightarrow> string \<Rightarrow> receipt \<Rightarrow> receipt" where
  "extractDataWithRegex strict lenient text dflt =
     \<lparr>vendorName =
        (case first_group (string_field_rx ''vendorName'') text of
           Some v \<Rightarrow> JStr v | None \<Rightarrow> vendorName dflt),
      transactionDate =
        (case first_group (string_field_rx ''transactionDate'') text of
           Some d \<Rightarrow> JStr d | None \<Rightarrow> transactionDate dflt),
      totalAmount =
        (case first_group (number_field_rx ''totalAmount'') text of
           Some t \<Rightarrow> parseFloat t | None \<Rightarrow> totalAmount dflt),
      items =
        (case first_group items_rx text of
           None \<Rightarrow> []
         | Some body \<Rightarrow>
             if body = [] then []
             else map (extract_item strict lenient) (split_rx item_boundary_rx [] body))\<rparr>"

subsection \<open>\<^verbatim>\<open>extractJsonFromLLMResponse\<close>\<close>

definition code_block_rx :: rx where
  \<comment> \<open>\<^verbatim>\<open>/```(?:json)?\s*([\s\S]*?)\s*```/\<close>\<close>
  "code_block_rx =
     cats [lit ''```'', Opt (lit ''json''), spaces, Grp 1 (LazyStar any_char), spaces, lit ''```'']"

definition json_block_rx :: rx where
  \<comment> \<open>\<^verbatim>\<open>/\{[\s\S]*\}/\<close>\<close>
  "json_block_rx = cats [chr CHR ''{'', Star any_char, chr CHR ''}'']"

text \<open>Step 1: the text between code fences if there is some, else the text from the first
  \<^verbatim>\<open>{\<close> to the last \<^verbatim>\<open>}\<close>, else nothing.\<close>

definition find_json_text :: "string \<Rightarrow> string option" where
  "find_json_text text =
     (case first_group code_block_rx text of
        Some (c # cs) \<Rightarrow> Some (c # cs)
      | _ \<Rightarrow> (case rx_match json_block_rx text of None \<Rightarrow> None | Some (m, c) \<Rightarrow> Some m))"

definition control_rx :: rx where
  \<comment> \<open>\<^verbatim>\<open>/[\u0000-\u001F\u007F-\u009F]/g\<close>\<close>
  "control_rx = Cls (\<lambda>c. code c \<le> 0x1F \<or> (0x7F \<le> code c \<and> code c \<le> 0x9F))"

definition strict_attempt ::
  "(string \<Rightarrow> error + jv) \<Rightarrow> string \<Rightarrow> string \<Rightarrow> error + receipt" where
  "strict_attempt strict now sanitizedJson =
     and_then (strict sanitizedJson) (validateAndCleanData now)"

definition lenient_attempt ::
  "(string \<Rightarrow> error + jv) \<Rightarrow> string \<Rightarrow> string \<Rightarrow> error + receipt" where
  "lenient_attempt lenient now sanitizedJson =
     (let cleanerJson = replace_all control_rx [] sanitizedJson
      in and_then (lenient cleanerJson) (validateAndCleanData now))"

text \<open>
  The body of the outer \<^verbatim>\<open>try\<close> block. Each of the first two approaches is a
  \<^verbatim>\<open>try\<close> block of its own, around the parse and the call of
  \<^verbatim>\<open>validateAndCleanData\<close>: an exception of either ends that approach and starts the
  next one. The context of a lenient failure is computed for the log and not used.
\<close>

definition extract_try ::
  "(string \<Rightarrow> error + jv) \<Rightarrow> (string \<Rightarrow> error + jv) \<Rightarrow> string \<Rightarrow> string \<Rightarrow> error + receipt"
  where
  "extract_try strict lenient now text =
     (case find_json_text text of
        None \<Rightarrow> Inr (defaultData now)
      | Some jsonText \<Rightarrow>
          (let sanitizedJson = sanitizeJsonString (JStr jsonText)
           in case strict_attempt strict now sanitizedJson of
                Inr r \<Rightarrow> Inr r
              | Inl jsonError \<Rightarrow>
                  (case lenient_attempt lenient now sanitizedJson of
                     Inr r \<Rightarrow> Inr r
                   | Inl json5Error \<Rightarrow>
                       (let context = error_context (message json5Error) sanitizedJson
                        in Inr (extractDataWithRegex strict lenient sanitizedJson
                                  (defaultData now))))))"

definition extractJsonFromLLMResponse ::
  "(string \<Rightarrow> error + jv) \<Rightarrow> (string \<Rightarrow> error + jv) \<Rightarrow> string \<Rightarrow> string \<Rightarrow> receipt" where
  "extractJsonFromLLMResponse strict lenient now text =
     (case extract_try strict lenient now text of
        Inr r \<Rightarrow> r
      | Inl e \<Rightarrow> defaultData now)"

subsection \<open>\<^verbatim>\<open>parseDate\<close>\<close>

text \<open>
  A date is kept as the arguments of \<^verbatim>\<open>new Date(year, month, day, hour, minute, second)\<close>,
  in local time and with the month counted from 0; arguments out of their range are not
  carried over. \<open>native\<close> stands for \<^verbatim>\<open>new Date(dateStr)\<close> and is \<open>None\<close> for an invalid
  date; \<open>now\<close> is \<^verbatim>\<open>new Date()\<close>.
\<close>

datatype date = NewDate int int int int int int

datatype dateArg = DUndefined | DDate date | DString string

definition num_group :: "caps \<Rightarrow> nat \<Rightarrow> int" where
  \<comment> \<open>\<^verbatim>\<open>parseInt(m[n], 10)\<close> for a group of digits\<close>
  "num_group c n = int (digits_val (group_text c n))"

definition opt_num_group :: "caps \<Rightarrow> nat \<Rightarrow> int" where
  \<comment> \<open>\<^verbatim>\<open>m[n] ? parseInt(m[n], 10) : 0\<close>\<close>
  "opt_num_group c n = (if group_text c n \<noteq> [] then num_group c n else 0)"

definition dmy_time_rx :: rx where
  \<comment> \<open>\<^verbatim>\<open>/(\d{1,2})\/(\d{1,2})\/(\d{2})(?:\s+(\d{1,2}):(\d{1,2})(?::(\d{1,2}))?)?/\<close>\<close>
  "dmy_time_rx =
     cats [Grp 1 digits12, chr CHR ''/'', Grp 2 digits12, chr CHR ''/'',
           Grp 3 (Cat (Cls is_digit) (Cls is_digit)),
           Opt (cats [Plus (Cls is_space), Grp 4 digits12, chr CHR '':'', Grp 5 digits12,
                      Opt (cats [chr CHR '':'', Grp 6 digits12])])]"

definition four_digits :: rx where
  "four_digits = cats [Cls is_digit, Cls is_digit, Cls is_digit, Cls is_digit]"

definition mdy_rx :: rx where
  \<comment> \<open>\<^verbatim>\<open>/(\d{1,2})\/(\d{1,2})\/(\d{4})/\<close>\<close>
  "mdy_rx = cats [Grp 1 digits12, chr CHR ''/'', Grp 2 digits12, chr CHR ''/'', Grp 3 four_digits]"

definition dmy_dash_rx :: rx where
  \<comment> \<open>\<^verbatim>\<open>/(\d{1,2})-(\d{1,2})-(\d{4})/\<close>\<close>
  "dmy_dash_rx =
     cats [Grp 1 digits12, chr CHR ''-'', Grp 2 digits12, chr CHR ''-'', Grp 3 four_digits]"

definition formats :: "(rx \<times> (caps \<Rightarrow> error + date)) list" where
  "formats =
     [(dmy_time_rx,
       \<lambda>m. Inr (NewDate (2000 + num_group m 3) (num_group m 2 - 1) (num_group m 1)
                   (opt_num_group m 4) (opt_num_group m 5) (opt_num_group m 6))),
      (mdy_rx,
       \<lambda>m. Inr (NewDate (num_group m 3) (num_group m 1 - 1) (num_group m 2) 0 0 0)),
      (dmy_dash_rx,
       \<lambda>m. Inr (NewDate (num_group m 3) (num_group m 2 - 1) (num_group m 1) 0 0 0))]"

text \<open>The loop over the formats: the first one whose expression matches and whose function
  returns gives the date; an exception of the function goes on with the next format.\<close>

fun try_formats :: "(rx \<times> (caps \<Rightarrow> error + date)) list \<Rightarrow> date \<Rightarrow> string \<Rightarrow> date" where
  "try_formats [] now dateStr = now"
| "try_formats ((regex, fn) # fs) now dateStr =
     (case rx_match regex dateStr of
        None \<Rightarrow> try_formats fs now dateStr
      | Some (m, c) \<Rightarrow>
          (case fn c of Inr d \<Rightarrow> d | Inl e \<Rightarrow> try_formats fs now dateStr))"

definition parseDate :: "(string \<Rightarrow> date option) \<Rightarrow> date \<Rightarrow> dateArg \<Rightarrow> date" where
  "parseDate native now dateStr =
     (case dateStr of
        DUndefined \<Rightarrow> now
      | DDate d \<Rightarrow> d
      | DString s \<Rightarrow>
          if s = [] then now
          else (case native s of Some d \<Rightarrow> d | None \<Rightarrow> try_formats formats now s))"

subsection \<open>\<^verbatim>\<open>scanReceipt\<close>, step 4\<close>

text \<open>
  Of \<^verbatim>\<open>scanReceipt\<close>, the two fields of \<^verbatim>\<open>receiptData\<close> that carry amounts:
  \<^verbatim>\<open>parseFloat(String(extractedData.totalAmount || '0'))\<close>, and the items, which are an
  array in every record that the extraction returns.
\<close>

definition receiptData_totalAmount :: "receipt \<Rightarrow> error + jsnum" where
  "receiptData_totalAmount extractedData = coerce_number (JNum (totalAmount extractedData)) ''0''"

definition receiptData_items :: "receipt \<Rightarrow> jv list" where
  "receiptData_items extractedData = items extractedData"

subsection \<open>The coercions in closed form\<close>

text \<open>
  The proofs about amounts use the following notions. A text of digits; the decimal text
  made of an integer part, a fraction and an exponent; the values that are no array and no
  object, for which \<^verbatim>\<open>String\<close> calls no method of the value; the field of an object, absent
  fields being \<^verbatim>\<open>undefined\<close>; a number in lowest terms of its decimal exponent, as
  \<open>dec\<close> builds them. Then \<open>amount v d\<close> is the value of
  \<^verbatim>\<open>parseFloat(String(v || d'))\<close> for a scalar \<open>v\<close>, where \<open>d\<close> is the number that the
  default text \<^verbatim>\<open>d'\<close> denotes, and \<open>cleaned\<close> is the element that the \<^verbatim>\<open>map\<close> of
  \<^verbatim>\<open>validateAndCleanData\<close> builds from an item; both are proved equal to the code's
  \<open>coerce_number\<close> and \<open>clean_item\<close> below.
\<close>

definition digits :: "string \<Rightarrow> bool" where
  "digits ds \<longleftrightarrow> (\<forall>c \<in> set ds. is_digit c)"

definition reads :: "string \<Rightarrow> string \<Rightarrow> string \<Rightarrow> string" where
  "reads a b t = a @ (if b = [] then [] else CHR ''.'' # b) @ t"

fun scalar :: "jv \<Rightarrow> bool" where
  "scalar (JArr xs) = False"
| "scalar (JObj kvs) = False"
| "scalar v = True"

definition field :: "(string \<times> jv) list \<Rightarrow> string \<Rightarrow> jv" where
  "field fs k = (case map_of fs k of None \<Rightarrow> JUndef | Some v \<Rightarrow> v)"

definition normal :: "jsnum \<Rightarrow> jsnum" where
  "normal x = (case x of Dec m e \<Rightarrow> dec m e | _ \<Rightarrow> x)"

definition amount :: "jv \<Rightarrow> jsnum \<Rightarrow> jsnum" where
  "amount v d =
     (if \<not> truthy v then d
      else (case v of JNum x \<Rightarrow> normal x | JStr s \<Rightarrow> parseFloat s | _ \<Rightarrow> NaN))"

definition cleaned :: "(string \<times> jv) list \<Rightarrow> jv" where
  "cleaned fs =
     item_object (or_else (field fs ''name'') (JStr ''Unnamed Item''))
       (amount (field fs ''quantity'') (Dec 1 0)) (amount (field fs ''price'') (Dec 0 0))"

section \<open>Properties\<close>

declare replace_all.simps [simp del] match_all.simps [simp del] split_rx.simps [simp del]
  show_nat.simps [simp del] norm10.simps [simp del]

subsection \<open>The matcher on the expressions that the proofs look into\<close>

lemma match_here_Cls:
  "match_here (Cls p) s =
     (case s of [] \<Rightarrow> None | x # xs \<Rightarrow> if p x then Some ([x], xs, []) else None)"
  by (cases s) (simp_all add: match_here_def)

lemma replace_all_Cls_delete: "replace_all (Cls p) [] s = filter (\<lambda>c. \<not> p c) s"
proof (induction s)
  case Nil
  show ?case by (subst replace_all.simps) (simp add: match_here_Cls)
next
  case (Cons x xs)
  show ?case by (subst replace_all.simps) (simp add: match_here_Cls Cons)
qed

lemma ms_chr:
  "ms (chr a) s c = (case s of [] \<Rightarrow> [] | x # xs \<Rightarrow> if x = a then [(xs, c)] else [])"
  by (simp add: chr_def)

lemma match_here_collapse:
  "match_here (cats [chr bsl, chr bsl, chr dq]) s =
     (case s of
        a # b # d # rest \<Rightarrow>
          if a = bsl \<and> b = bsl \<and> d = dq then Some ([bsl, bsl, dq], rest, []) else None
      | _ \<Rightarrow> None)"
  by (auto simp: match_here_def cats_def ms_chr split: list.splits)

lemma match_here_collapse_short:
  "length s < 3 \<Longrightarrow> match_here (cats [chr bsl, chr bsl, chr dq]) s = None"
  by (cases s; cases "tl s"; cases "tl (tl s)") (auto simp: match_here_collapse)

lemma replace_all_collapse_short:
  "length s < 3 \<Longrightarrow> replace_all (cats [chr bsl, chr bsl, chr dq]) t s = s"
proof (induction s)
  case Nil
  show ?case by (subst replace_all.simps) (simp add: match_here_collapse)
next
  case (Cons x xs)
  then have "replace_all (cats [chr bsl, chr bsl, chr dq]) t xs = xs"
    by simp
  with Cons.prems show ?case
    by (subst replace_all.simps) (simp add: match_here_collapse_short)
qed

lemma collapse_is_collapse3: "collapse_escaped_quotes s = collapse3 s"
  unfolding collapse_escaped_quotes_def
proof (induction s rule: collapse3.induct)
  case (1 a b d rest)
  then show ?case
    by (subst replace_all.simps) (simp add: match_here_collapse)
qed (simp_all add: replace_all_collapse_short)

lemma collapse3_ne: "s \<noteq> [] \<Longrightarrow> collapse3 s \<noteq> []"
  by (induction s rule: collapse3.induct) auto

lemma collapse3_hd: "s \<noteq> [] \<Longrightarrow> hd s \<noteq> bsl \<Longrightarrow> hd (collapse3 s) = hd s"
  by (induction s rule: collapse3.induct) auto

lemma collapse3_last: "s \<noteq> [] \<Longrightarrow> last s \<noteq> dq \<Longrightarrow> last (collapse3 s) = last s"
  by (induction s rule: collapse3.induct) (auto simp: collapse3_ne)

subsection \<open>The envelope of the sanitized text\<close>

lemma startsWith_single: "startsWith s [c] \<longleftrightarrow> s \<noteq> [] \<and> hd s = c"
  by (cases s) (auto simp: startsWith_def)

lemma endsWith_single: "endsWith s [c] \<longleftrightarrow> s \<noteq> [] \<and> last s = c"
  by (cases s rule: rev_cases) (auto simp: endsWith_def)

lemma ensure_object_ends:
  "ensure_object s \<noteq> [] \<and> hd (ensure_object s) = CHR ''{''
     \<and> last (ensure_object s) = CHR ''}''"
  by (auto simp: ensure_object_def Let_def startsWith_single endsWith_single)

lemma repair_text_ends:
  "repair_text s \<noteq> [] \<and> hd (repair_text s) = CHR ''{'' \<and> last (repair_text s) = CHR ''}''"
proof -
  let ?x = "ensure_object (fix_syntax (handle_escapes (trim s)))"
  have e: "?x \<noteq> []" "hd ?x = CHR ''{''" "last ?x = CHR ''}''"
    using ensure_object_ends by blast+
  then have "hd ?x \<noteq> bsl" "last ?x \<noteq> dq"
    by (simp_all add: bsl_def dq_def)
  with e show ?thesis
    by (simp add: repair_text_def collapse_is_collapse3 collapse3_ne collapse3_hd collapse3_last)
qed

lemma quote_pass_length: "length (quote_pass a b s) = length s"
  by (induction s arbitrary: a b) auto

lemma quote_pass_ne: "s \<noteq> [] \<Longrightarrow> quote_pass a b s \<noteq> []"
  using quote_pass_length [of a b s] by (metis length_0_conv)

lemma quote_pass_last:
  "s \<noteq> [] \<Longrightarrow> last s = CHR ''}'' \<Longrightarrow> last (quote_pass a b s) = CHR ''}''"
proof (induction s arbitrary: a b)
  case Nil
  then show ?case by simp
next
  case (Cons x xs)
  show ?case
  proof (cases "xs = []")
    case True
    with Cons.prems show ?thesis by (simp add: bsl_def dq_def sq_def)
  next
    case False
    from False Cons.prems have "last xs = CHR ''}''" by simp
    with False Cons.IH have "\<And>a b. last (quote_pass a b xs) = CHR ''}''" by blast
    with False show ?thesis by (simp add: quote_pass_ne)
  qed
qed

lemma quote_pass_hd:
  "s \<noteq> [] \<Longrightarrow> hd s = CHR ''{'' \<Longrightarrow> hd (quote_pass False False s) = CHR ''{''"
  by (cases s) (simp_all add: bsl_def dq_def)

lemma sanitize_steps_ends:
  "sanitize_steps s \<noteq> [] \<and> hd (sanitize_steps s) = CHR ''{''
     \<and> last (sanitize_steps s) = CHR ''}''"
  using repair_text_ends [of s]
  by (simp add: sanitize_steps_def Let_def quote_pass_ne quote_pass_hd quote_pass_last)

lemma sanitize_cases:
  "sanitizeJsonString v = fallback_text
     \<or> (\<exists>s. v = JStr s \<and> sanitizeJsonString v = sanitize_steps s)"
  by (cases v) (simp_all add: sanitizeJsonString_def sanitize_try_def)

text \<open>
  Claim C10. For every input, the text that \<open>sanitizeJsonString\<close> returns begins with
  \<^verbatim>\<open>{\<close> and ends with \<^verbatim>\<open>}\<close>: step 5 makes it so, the collapse of doubly escaped quotes
  and the loop over the characters keep the first and the last character, and the
  text of the \<^verbatim>\<open>catch\<close> block has this form as well.
\<close>

theorem sanitize_envelope:
  "sanitizeJsonString v \<noteq> [] \<and> hd (sanitizeJsonString v) = CHR ''{''
     \<and> last (sanitizeJsonString v) = CHR ''}''"
proof -
  have "fallback_text \<noteq> [] \<and> hd fallback_text = CHR ''{'' \<and> last fallback_text = CHR ''}''"
    by (simp add: fallback_text_def)
  with sanitize_cases [of v] sanitize_steps_ends show ?thesis
    by metis
qed

theorem sanitize_envelope_witness:
  \<open>hd (sanitizeJsonString (JStr ''[1, 2]'')) = CHR ''{''
     \<and> last (sanitizeJsonString (JStr ''[1, 2]'')) = CHR ''}''
     \<and> hd (sanitizeJsonString JNull) = CHR ''{''
     \<and> last (sanitizeJsonString JNull) = CHR ''}''\<close>
  using sanitize_envelope [of \<open>JStr ''[1, 2]''\<close>] sanitize_envelope [of JNull]
  by simp

subsection \<open>The loop over the characters\<close>


text \<open>The loop keeps every double quote where it is, in whatever state it meets it: the
  branch that toggles \<open>inString\<close> comes first and ends the iteration.\<close>

lemma quote_pass_keeps_dq:
  "map (\<lambda>ch. ch = dq) (quote_pass a b s) = map (\<lambda>ch. ch = dq) s"
  by (induction s arbitrary: a b) (auto simp: dq_def sq_def)

text \<open>
  Claim C2. The claim is that every unescaped quote, single or double, that the loop
  meets inside a string becomes a space, so that a quote inside a value does not end the
  string. The code replaces single quotes only. In the text
  \<^verbatim>\<open>{"vendorName":"Joe "Best" Diner"}\<close> the quote in front of \<^verbatim>\<open>Best\<close> is met inside
  the string of the value; the sanitizer returns the text as it is, with that quote in
  place, and the string of the value ends there: the text is no JSON.
\<close>

theorem nested_double_quote_kept:
  \<open>sanitizeJsonString (JStr ''{"vendorName":"Joe "Best" Diner"}'')
       = ''{"vendorName":"Joe "Best" Diner"}''
     \<and> JSON_parse (sanitizeJsonString (JStr ''{"vendorName":"Joe "Best" Diner"}''))
         = Inl (SyntaxError ''Unexpected token'')\<close>
  by code_simp

text \<open>
  Claim C9. Whenever the body of \<open>sanitizeJsonString\<close> raises an exception, the function
  returns the literal text of its \<^verbatim>\<open>catch\<close> block. Returning a text for every input
  is the type of the function.
\<close>

theorem sanitize_fault_fallback:
  \<open>sanitize_try v = Inl e \<Longrightarrow>
     sanitizeJsonString v =
       ''{"vendorName":"Unknown Vendor","transactionDate":"2023-01-01","totalAmount":0,"items":[]}''\<close>
  by (simp add: sanitizeJsonString_def fallback_text_def)

theorem sanitize_fault_fallback_witness:
  \<open>sanitize_try JNull = Inl (cannot_read ''null'' ''length'')
     \<and> sanitizeJsonString JNull =
       ''{"vendorName":"Unknown Vendor","transactionDate":"2023-01-01","totalAmount":0,"items":[]}''\<close>
proof -
  have h: "sanitize_try JNull = Inl (cannot_read ''null'' ''length'')"
    by (simp add: sanitize_try_def)
  show ?thesis using h sanitize_fault_fallback [OF h] by simp
qed




subsection \<open>The extraction as a whole\<close>

lemma strip_control_filter:
  "replace_all control_rx [] t
     = filter (\<lambda>c. \<not> (code c \<le> 0x1F \<or> (0x7F \<le> code c \<and> code c \<le> 0x9F))) t"
  by (simp add: control_rx_def replace_all_Cls_delete)

lemma extract_try_returns: "\<exists>r. extract_try strict lenient now text = Inr r"
  by (simp add: extract_try_def Let_def split: option.splits sum.splits)

text \<open>
  Claim C1. For every text and whatever the two parsers do, the body of
  \<open>extractJsonFromLLMResponse\<close> ends with a record and not with an exception: every
  exception of a parser or of \<open>validateAndCleanData\<close> is caught by the approach that raised
  it, and the outer \<^verbatim>\<open>catch\<close> block, which returns the default record, is not entered.
  The function returns that record, of the four fields \<open>vendorName\<close>,
  \<open>transactionDate\<close>, \<open>totalAmount\<close> and \<open>items\<close>, and it is the default record when the
  text holds neither a fenced block nor a pair of braces.
\<close>

theorem extract_total:
  "(\<exists>r. extract_try strict lenient now text = Inr r
         \<and> extractJsonFromLLMResponse strict lenient now text = r)
   \<and> (find_json_text text = None \<longrightarrow>
         extractJsonFromLLMResponse strict lenient now text = defaultData now)"
proof -
  obtain r where r: "extract_try strict lenient now text = Inr r"
    using extract_try_returns by blast
  then have "extractJsonFromLLMResponse strict lenient now text = r"
    by (simp add: extractJsonFromLLMResponse_def)
  moreover have "find_json_text text = None \<Longrightarrow>
      extractJsonFromLLMResponse strict lenient now text = defaultData now"
    by (simp add: extractJsonFromLLMResponse_def extract_try_def)
  ultimately show ?thesis using r by blast
qed

theorem extract_total_witness:
  "find_json_text ''I cannot read this receipt.'' = None
   \<and> extractJsonFromLLMResponse JSON_parse JSON_parse ''2026-01-01T00:00:00.000Z''
        ''I cannot read this receipt.''
       = \<lparr>vendorName = JStr ''Unknown Vendor'', transactionDate = JStr ''2026-01-01T00:00:00.000Z'',
          totalAmount = Dec 0 0, items = []\<rparr>"
proof -
  have h: "find_json_text ''I cannot read this receipt.'' = None"
    by code_simp
  from extract_total [of JSON_parse JSON_parse "''2026-01-01T00:00:00.000Z''"
      "''I cannot read this receipt.''"] h
  show ?thesis by (simp add: defaultData_def)
qed

text \<open>
  Claim C6. With \<open>t\<close> the sanitized text and \<open>u\<close> the text \<open>t\<close> without the code units
  0 to 31 and 127 to 159: if the strict parse of \<open>t\<close> and the validation succeed, their
  record is the result; if they fail and the lenient parse of \<open>u\<close> and the validation
  succeed, that record is the result; if both fail, the result is the regex extraction from
  \<open>t\<close>, whatever the error of the lenient approach and its message are.
\<close>

theorem parse_chain_order:
  assumes "find_json_text text = Some jsonText"
    and "t = sanitizeJsonString (JStr jsonText)"
    and "u = filter (\<lambda>c. \<not> (code c \<le> 0x1F \<or> (0x7F \<le> code c \<and> code c \<le> 0x9F))) t"
  shows "(\<forall>r. and_then (strict t) (validateAndCleanData now) = Inr r \<longrightarrow>
            extractJsonFromLLMResponse strict lenient now text = r)
       \<and> (\<forall>e r. and_then (strict t) (validateAndCleanData now) = Inl e
              \<and> and_then (lenient u) (validateAndCleanData now) = Inr r \<longrightarrow>
            extractJsonFromLLMResponse strict lenient now text = r)
       \<and> (\<forall>e e'. and_then (strict t) (validateAndCleanData now) = Inl e
              \<and> and_then (lenient u) (validateAndCleanData now) = Inl e' \<longrightarrow>
            extractJsonFromLLMResponse strict lenient now text
              = extractDataWithRegex strict lenient t (defaultData now))"
  using assms
  by (simp add: extractJsonFromLLMResponse_def extract_try_def Let_def strict_attempt_def
        lenient_attempt_def strip_control_filter)

theorem parse_chain_order_witness:
  \<open>(find_json_text ''{"vendorName":"A"}'' = Some ''{"vendorName":"A"}''
      \<and> and_then (JSON_parse (sanitizeJsonString (JStr ''{"vendorName":"A"}'')))
            (validateAndCleanData ''now'')
          = Inr \<lparr>vendorName = JStr ''A'', transactionDate = JStr ''now'', totalAmount = Dec 0 0,
                 items = []\<rparr>
      \<and> extractJsonFromLLMResponse JSON_parse JSON_parse ''now'' ''{"vendorName":"A"}''
          = \<lparr>vendorName = JStr ''A'', transactionDate = JStr ''now'', totalAmount = Dec 0 0,
             items = []\<rparr>)
   \<and> (find_json_text (''{"vendorName":"A'' @ [CHR 0x09] @ ''B"}'')
          = Some (''{"vendorName":"A'' @ [CHR 0x09] @ ''B"}'')
      \<and> and_then (JSON_parse (sanitizeJsonString (JStr (''{"vendorName":"A'' @ [CHR 0x09] @ ''B"}''))))
            (validateAndCleanData ''now'')
          = Inl (SyntaxError ''Unexpected token'')
      \<and> extractJsonFromLLMResponse JSON_parse JSON_parse ''now''
            (''{"vendorName":"A'' @ [CHR 0x09] @ ''B"}'')
          = \<lparr>vendorName = JStr ''AB'', transactionDate = JStr ''now'', totalAmount = Dec 0 0,
             items = []\<rparr>)
   \<and> (find_json_text ''{"vendorName":"A" "totalAmount":5}''
          = Some ''{"vendorName":"A" "totalAmount":5}''
      \<and> and_then (JSON_parse (sanitizeJsonString (JStr ''{"vendorName":"A" "totalAmount":5}'')))
            (validateAndCleanData ''now'')
          = Inl (SyntaxError ''Unexpected token'')
      \<and> extractJsonFromLLMResponse JSON_parse JSON_parse ''now''
            ''{"vendorName":"A" "totalAmount":5}''
          = \<lparr>vendorName = JStr ''A'', transactionDate = JStr ''now'', totalAmount = Dec 5 0,
             items = []\<rparr>)\<close>
proof -
  let ?x1 = \<open>''{"vendorName":"A"}''\<close>
  let ?x2 = \<open>''{"vendorName":"A'' @ [CHR 0x09] @ ''B"}''\<close>
  let ?x3 = \<open>''{"vendorName":"A" "totalAmount":5}''\<close>
  let ?strip = "filter (\<lambda>c. \<not> (code c \<le> 0x1F \<or> (0x7F \<le> code c \<and> code c \<le> 0x9F)))"
  let ?r1 = "\<lparr>vendorName = JStr ''A'', transactionDate = JStr ''now'', totalAmount = Dec 0 0,
              items = []\<rparr>"
  let ?r2 = "\<lparr>vendorName = JStr ''AB'', transactionDate = JStr ''now'', totalAmount = Dec 0 0,
              items = []\<rparr>"
  let ?r3 = "\<lparr>vendorName = JStr ''A'', transactionDate = JStr ''now'', totalAmount = Dec 5 0,
              items = []\<rparr>"
  have f1: "find_json_text ?x1 = Some ?x1"
    by code_simp
  have s1: "and_then (JSON_parse (sanitizeJsonString (JStr ?x1))) (validateAndCleanData ''now'')
              = Inr ?r1"
    by code_simp
  have f2: "find_json_text ?x2 = Some ?x2"
    by code_simp
  have s2: "and_then (JSON_parse (sanitizeJsonString (JStr ?x2))) (validateAndCleanData ''now'')
              = Inl (SyntaxError ''Unexpected token'')"
    by code_simp
  have l2: "and_then (JSON_parse (?strip (sanitizeJsonString (JStr ?x2))))
              (validateAndCleanData ''now'') = Inr ?r2"
    by code_simp
  have f3: "find_json_text ?x3 = Some ?x3"
    by code_simp
  have s3: "and_then (JSON_parse (sanitizeJsonString (JStr ?x3))) (validateAndCleanData ''now'')
              = Inl (SyntaxError ''Unexpected token'')"
    by code_simp
  have l3: "and_then (JSON_parse (?strip (sanitizeJsonString (JStr ?x3))))
              (validateAndCleanData ''now'') = Inl (SyntaxError ''Unexpected token'')"
    by code_simp
  have g3: "extractDataWithRegex JSON_parse JSON_parse (sanitizeJsonString (JStr ?x3))
              (defaultData ''now'') = ?r3"
    by code_simp
  have c1: "extractJsonFromLLMResponse JSON_parse JSON_parse ''now'' ?x1 = ?r1"
    using parse_chain_order [OF f1 refl refl, of JSON_parse "''now''" JSON_parse] s1 by blast
  have c2: "extractJsonFromLLMResponse JSON_parse JSON_parse ''now'' ?x2 = ?r2"
    using parse_chain_order [OF f2 refl refl, of JSON_parse "''now''" JSON_parse] s2 l2 by blast
  have c3: "extractJsonFromLLMResponse JSON_parse JSON_parse ''now'' ?x3 = ?r3"
    using parse_chain_order [OF f3 refl refl, of JSON_parse "''now''" JSON_parse] s3 l3 g3
    by metis
  from f1 s1 c1 f2 s2 c2 f3 s3 c3 show ?thesis
    by blast
qed

subsection \<open>Defaults of an item\<close>

lemma item_text_found:
  \<open>find_json_text ''{"items":[{"quantity":2 "price":3}]}''
     = Some ''{"items":[{"quantity":2 "price":3}]}''\<close>
  by code_simp

lemma item_text_sanitized:
  \<open>sanitizeJsonString (JStr ''{"items":[{"quantity":2 "price":3}]}'')
     = ''{"items":[{"quantity":2 "price":3}]}''\<close>
  by code_simp

lemma item_text_strict:
  \<open>JSON_parse ''{"items":[{"quantity":2 "price":3}]}'' = Inl (SyntaxError ''Unexpected token'')\<close>
  by code_simp

lemma item_text_controls:
  \<open>replace_all control_rx [] ''{"items":[{"quantity":2 "price":3}]}''
     = ''{"items":[{"quantity":2 "price":3}]}''\<close>
  by code_simp

lemma item_text_regex:
  \<open>extractDataWithRegex JSON_parse lenient ''{"items":[{"quantity":2 "price":3}]}'' d
   = \<lparr>vendorName = vendorName d, transactionDate = transactionDate d, totalAmount = totalAmount d,
      items = [case lenient ''{"quantity":2 "price":3}'' of
                 Inr v \<Rightarrow> v
               | Inl e \<Rightarrow> item_fields ''{"quantity":2 "price":3}'']\<rparr>\<close>
  by code_simp

lemma item_text_fields:
  \<open>item_fields ''{"quantity":2 "price":3}''
     = item_object (JStr ''Unknown Item'') (Dec 2 0) (Dec 3 0)\<close>
  by code_simp

lemma clean_item_defaults:
  "clean_item (JObj []) = Inr (item_object (JStr ''Unnamed Item'') (Dec 1 0) (Dec 0 0))"
  by code_simp

text \<open>
  Claim C3. The claim is that an item without a name is called \<^verbatim>\<open>Unnamed Item\<close> on every
  path. \<open>validateAndCleanData\<close> does so (\<open>clean_item_defaults\<close>); the regex fallback for
  one item uses \<^verbatim>\<open>Unknown Item\<close>. In the text below a comma is missing between the
  two properties of the item, so that the strict parser fails on the text and on the item;
  if the lenient parser fails on both as well, the item gets its name from the fallback.
\<close>

theorem regex_item_name_default:
  assumes \<open>lenient ''{"items":[{"quantity":2 "price":3}]}'' = Inl e1\<close>
    and \<open>lenient ''{"quantity":2 "price":3}'' = Inl e2\<close>
  shows \<open>items (extractJsonFromLLMResponse JSON_parse lenient now
                  ''{"items":[{"quantity":2 "price":3}]}'')
           = [item_object (JStr ''Unknown Item'') (Dec 2 0) (Dec 3 0)]\<close>
  using assms
  by (simp add: extractJsonFromLLMResponse_def extract_try_def Let_def strict_attempt_def
        lenient_attempt_def and_then_def item_text_found item_text_sanitized item_text_strict
        item_text_controls item_text_regex item_text_fields)

theorem regex_item_name_default_witness:
  \<open>JSON_parse ''{"items":[{"quantity":2 "price":3}]}'' = Inl (SyntaxError ''Unexpected token'')
   \<and> JSON_parse ''{"quantity":2 "price":3}'' = Inl (SyntaxError ''Unexpected token'')
   \<and> items (extractJsonFromLLMResponse JSON_parse JSON_parse ''2026-01-01T00:00:00.000Z''
               ''{"items":[{"quantity":2 "price":3}]}'')
       = [JObj [(''name'', JStr ''Unknown Item''), (''quantity'', JNum (Dec 2 0)),
                (''price'', JNum (Dec 3 0))]]\<close>
proof -
  have h1: \<open>JSON_parse ''{"items":[{"quantity":2 "price":3}]}''
              = Inl (SyntaxError ''Unexpected token'')\<close>
    by code_simp
  have h2: \<open>JSON_parse ''{"quantity":2 "price":3}'' = Inl (SyntaxError ''Unexpected token'')\<close>
    by code_simp
  from regex_item_name_default [OF h1 h2, of "''2026-01-01T00:00:00.000Z''"] h1 h2
  show ?thesis by (simp add: item_object_def)
qed

subsection \<open>Amounts\<close>

lemma code_digit_char: "n < 10 \<Longrightarrow> code (digit_char n) = 48 + n"
  by (simp add: code_def digit_char_def)

lemma is_digit_digit_char: "n < 10 \<Longrightarrow> is_digit (digit_char n)"
  by (simp add: is_digit_def code_digit_char)

lemma show_nat_digits: "digits (show_nat n)"
proof (induction n rule: show_nat.induct)
  case (1 n)
  show ?case
  proof (cases "n < 10")
    case True
    then show ?thesis
      by (subst show_nat.simps) (simp add: digits_def is_digit_digit_char)
  next
    case False
    with 1 have "digits (show_nat (n div 10))" by simp
    with False show ?thesis
      by (subst show_nat.simps) (simp add: digits_def is_digit_digit_char)
  qed
qed

lemma show_nat_ne: "show_nat n \<noteq> []"
  by (subst show_nat.simps) simp

lemma digits_val_snoc: "digits_val (ds @ [d]) = 10 * digits_val ds + (code d - 48)"
  by (simp add: digits_val_def)

lemma digits_val_Nil: "digits_val [] = 0"
  by (simp add: digits_val_def)

lemma digits_val_show_nat: "digits_val (show_nat n) = n"
proof (induction n rule: show_nat.induct)
  case (1 n)
  show ?case
  proof (cases "n < 10")
    case True
    then show ?thesis
      by (subst show_nat.simps) (simp add: digits_val_def code_digit_char)
  next
    case False
    with 1 have "digits_val (show_nat (n div 10)) = n div 10" by simp
    with False show ?thesis
      by (subst show_nat.simps) (simp add: digits_val_snoc code_digit_char)
  qed
qed

lemma digits_val_append:
  "digits_val (a @ b) = digits_val a * 10 ^ length b + digits_val b"
proof (induction b rule: rev_induct)
  case Nil
  show ?case by (simp add: digits_val_Nil)
next
  case (snoc x xs)
  have "digits_val (a @ xs @ [x]) = 10 * digits_val (a @ xs) + (code x - 48)"
    using digits_val_snoc [of "a @ xs" x] by simp
  with snoc show ?case
    by (simp add: digits_val_snoc algebra_simps)
qed

lemma digits_val_zeros: "digits_val (replicate j CHR ''0'') = 0"
proof (induction j)
  case 0
  show ?case by (simp add: digits_val_Nil)
next
  case (Suc j)
  have "digits_val ([CHR ''0''] @ replicate j CHR ''0'')
          = digits_val [CHR ''0''] * 10 ^ length (replicate j CHR ''0'') + digits_val (replicate j CHR ''0'')"
    by (rule digits_val_append)
  moreover have "digits_val [CHR ''0''] = 0"
    by (simp add: digits_val_def code_def)
  ultimately show ?case using Suc by simp
qed

lemma norm10_zero: "norm10 0 e = (0, 0)"
  by (subst norm10.simps) simp

lemma norm10_times10: "m \<noteq> 0 \<Longrightarrow> norm10 (m * 10) e = norm10 m (e + 1)"
  by (subst norm10.simps) simp

lemma norm10_shift: "norm10 (m * 10 ^ j) e = norm10 m (e + int j)"
proof (cases "m = 0")
  case True
  then show ?thesis by (simp add: norm10_zero)
next
  case False
  show ?thesis
  proof (induction j arbitrary: e)
    case 0
    show ?case by simp
  next
    case (Suc j)
    have "m * 10 ^ Suc j = (m * 10 ^ j) * 10"
      by simp
    then have "norm10 (m * 10 ^ Suc j) e = norm10 ((m * 10 ^ j) * 10) e"
      by (simp only:)
    also have "\<dots> = norm10 (m * 10 ^ j) (e + 1)"
      using False by (intro norm10_times10) simp
    also have "\<dots> = norm10 m (e + 1 + int j)"
      by (rule Suc.IH)
    also have "e + 1 + int j = e + int (Suc j)"
      by simp
    finally show ?case .
  qed
qed

lemma dec_shift: "dec (m * 10 ^ j) e = dec m (e + int j)"
  by (simp add: dec_def norm10_shift)


lemma norm10_keep: "m mod 10 \<noteq> 0 \<Longrightarrow> norm10 m e = (m, e)"
  by (subst norm10.simps) auto

lemma takeWhile_digits:
  "digits a \<Longrightarrow> r = [] \<or> \<not> is_digit (hd r) \<Longrightarrow> takeWhile is_digit (a @ r) = a"
  by (cases r) (auto simp: digits_def takeWhile_append2)

lemma dropWhile_digits:
  "digits a \<Longrightarrow> r = [] \<or> \<not> is_digit (hd r) \<Longrightarrow> dropWhile is_digit (a @ r) = r"
  by (cases r) (auto simp: digits_def dropWhile_append2)

lemma takeWhile_show_nat: "takeWhile is_digit (show_nat j) = show_nat j"
  using show_nat_digits [of j] by (simp add: digits_def)

lemma exponent_part_written:
  "exponent_part (CHR ''e'' # CHR ''+'' # show_nat j) = int j"
  "exponent_part (CHR ''e'' # CHR ''-'' # show_nat j) = - int j"
  by (simp_all add: exponent_part_def Let_def takeWhile_show_nat show_nat_ne digits_val_show_nat)

lemma exponent_part_Nil: "exponent_part [] = 0"
  by (simp add: exponent_part_def)

lemma parseFloat_reads:
  assumes a: "digits a" "a \<noteq> []" and b: "digits b"
    and t: "t = [] \<or> hd t = CHR ''e''"
  shows "parseFloat (reads a b t)
           = dec (int (digits_val (a @ b))) (exponent_part t - int (length b))"
    and "parseFloat (CHR ''-'' # reads a b t)
           = dec (- int (digits_val (a @ b))) (exponent_part t - int (length b))"
proof -
  obtain a0 ar where a0: "a = a0 # ar" "is_digit a0"
    using a by (cases a) (auto simp: digits_def)
  have nd: "\<not> is_digit CHR ''.''" "\<not> is_digit CHR ''e''" "\<not> is_space CHR ''-''"
    by (simp_all add: is_digit_def is_space_def code_def)
  have a0': "\<not> is_space a0" "a0 \<noteq> CHR ''-''" "a0 \<noteq> CHR ''+''" "a0 \<noteq> CHR ''I''"
    using a0(2) by (auto simp: is_digit_def is_space_def code_def)
  let ?u = "reads a b t"
  obtain us where u: "?u = a0 # us"
    by (simp add: reads_def a0)
  have tnd: "t = [] \<or> \<not> is_digit (hd t)"
    using t nd by auto
  have ip: "takeWhile is_digit ?u = a"
    unfolding reads_def using a(1) b tnd nd
    by (cases "b = []") (auto intro!: takeWhile_digits)
  have r1: "dropWhile is_digit ?u = (if b = [] then t else CHR ''.'' # b @ t)"
    unfolding reads_def using a(1) b tnd nd
    by (cases "b = []") (auto intro!: dropWhile_digits)
  have fp: "takeWhile is_digit (b @ t) = b" "dropWhile is_digit (b @ t) = t"
    using b tnd by (auto intro!: takeWhile_digits dropWhile_digits)
  have te: "\<not> (t \<noteq> [] \<and> hd t = CHR ''.'')"
    using t by auto
  have inf: "\<not> startsWith ?u ''Infinity''"
    using a0' by (simp add: u startsWith_def)
  have core: "decimal_literal neg ?u
         = dec (if neg then - int (digits_val (a @ b)) else int (digits_val (a @ b)))
             (exponent_part t - int (length b))" for neg
    using te a(2) inf by (auto simp add: decimal_literal_def ip r1 fp Let_def)
  have hdu: "?u \<noteq> []" "hd ?u = a0"
    by (simp_all add: u)
  have w1: "dropWhile is_space ?u = ?u"
    using a0' by (simp add: u)
  show "parseFloat ?u = dec (int (digits_val (a @ b))) (exponent_part t - int (length b))"
    using a0' by (simp add: parseFloat_def w1 Let_def hdu core)
  show "parseFloat (CHR ''-'' # ?u)
          = dec (- int (digits_val (a @ b))) (exponent_part t - int (length b))"
    using nd by (simp add: parseFloat_def core)
qed


lemma digits_append: "digits (a @ b) \<longleftrightarrow> digits a \<and> digits b"
  by (auto simp: digits_def)

lemma digits_zeros: "digits (replicate j CHR ''0'')"
  by (simp add: digits_def is_digit_def code_def)

lemma digits_take_drop: "digits ds \<Longrightarrow> digits (take n ds) \<and> digits (drop n ds)"
  by (auto simp: digits_def dest: in_set_takeD in_set_dropD)

text \<open>The text of a number reads back as the number.\<close>

lemma parseFloat_num_to_string_Dec: "parseFloat (num_to_string (Dec m e)) = dec m e"
proof (cases "m = 0")
  case True
  have "parseFloat ''0'' = Dec 0 0"
    by code_simp
  with True show ?thesis
    by (simp add: num_to_string_def dec_def norm10_zero)
next
  case False
  define ds where "ds = show_nat (nat \<bar>m\<bar>)"
  define k where "k = int (length ds)"
  define n where "n = k + e"
  have ds: "digits ds" "ds \<noteq> []" "int (digits_val ds) = \<bar>m\<bar>"
    by (simp_all add: ds_def show_nat_digits show_nat_ne digits_val_show_nat)
  have k: "0 < k"
    using ds(2) by (simp add: k_def)
  define body where "body =
     (if k \<le> n \<and> n \<le> 21 then ds @ replicate (nat (n - k)) CHR ''0''
      else if 0 < n \<and> n \<le> 21 then take (nat n) ds @ ''.'' @ drop (nat n) ds
      else if - 6 < n \<and> n \<le> 0 then ''0.'' @ replicate (nat (- n)) CHR ''0'' @ ds
      else
        (let ex = (if n - 1 < 0 then CHR ''-'' # show_nat (nat (1 - n))
                   else CHR ''+'' # show_nat (nat (n - 1)))
         in if k = 1 then ds @ ''e'' @ ex
            else take 1 ds @ ''.'' @ drop 1 ds @ ''e'' @ ex))"
  have nts: "num_to_string (Dec m e) = (if m < 0 then CHR ''-'' # body else body)"
    by (simp only: num_to_string_def jsnum.case False if_False Let_def body_def ds_def k_def
          n_def)
  have fin: "parseFloat body = dec \<bar>m\<bar> e \<and> parseFloat (CHR ''-'' # body) = dec (- \<bar>m\<bar>) e"
    if "body = reads a b t" "digits a" "a \<noteq> []" "digits b" "t = [] \<or> hd t = CHR ''e''"
      "int (digits_val (a @ b)) = M" "exponent_part t - int (length b) = E"
      "dec M E = dec \<bar>m\<bar> e" "dec (- M) E = dec (- \<bar>m\<bar>) e" for a b t M E
    using parseFloat_reads [OF that(2,3,4,5)] that(1,6,7,8,9) by simp
  have goal: "parseFloat body = dec \<bar>m\<bar> e \<and> parseFloat (CHR ''-'' # body) = dec (- \<bar>m\<bar>) e"
  proof -
    consider (A) "k \<le> n \<and> n \<le> 21"
      | (B) "\<not> (k \<le> n \<and> n \<le> 21)" "0 < n \<and> n \<le> 21"
      | (C) "\<not> (k \<le> n \<and> n \<le> 21)" "\<not> (0 < n \<and> n \<le> 21)" "- 6 < n \<and> n \<le> 0"
      | (D) "\<not> (k \<le> n \<and> n \<le> 21)" "\<not> (0 < n \<and> n \<le> 21)" "\<not> (- 6 < n \<and> n \<le> 0)"
      by blast
    then show ?thesis
    proof cases
      case A
      let ?j = "nat (n - k)"
      have e: "e = int ?j"
        using A by (simp add: n_def)
      have "body = ds @ replicate ?j CHR ''0''"
        by (simp only: body_def A if_True simp_thms)
      then have b: "body = reads (ds @ replicate ?j CHR ''0'') [] []"
        by (simp add: reads_def)
      have v: "int (digits_val ((ds @ replicate ?j CHR ''0'') @ [])) = \<bar>m\<bar> * 10 ^ ?j"
        using ds(3) by (simp add: digits_val_append digits_val_zeros)
      have d: "dec (\<bar>m\<bar> * 10 ^ ?j) 0 = dec \<bar>m\<bar> e" "dec (- (\<bar>m\<bar> * 10 ^ ?j)) 0 = dec (- \<bar>m\<bar>) e"
        using dec_shift [of "\<bar>m\<bar>" ?j 0] dec_shift [of "- \<bar>m\<bar>" ?j 0] e by simp_all
      have x: "exponent_part [] - int (length ([] :: string)) = 0"
        by (simp add: exponent_part_Nil)
      have da: "digits (ds @ replicate ?j CHR ''0'')" "digits []"
        by (simp_all add: digits_append digits_zeros ds) (simp add: digits_def)
      show ?thesis
        by (rule fin [OF b da(1) _ da(2) _ v x d]) (simp_all add: ds)
    next
      case B
      let ?a = "take (nat n) ds" and ?b = "drop (nat n) ds"
      have B': "0 < n" "n < k"
        using B by linarith+
      have ne: "?a \<noteq> []" "?b \<noteq> []"
        using B' ds(2) by (auto simp: k_def)
      have nb: "\<not> k \<le> n"
        using B by linarith
      have "body = ?a @ ''.'' @ ?b"
        by (simp only: body_def B(2) nb if_True if_False simp_thms)
      then have b: "body = reads ?a ?b []"
        using ne by (simp add: reads_def)
      have v: "int (digits_val (?a @ ?b)) = \<bar>m\<bar>"
        using ds(3) by simp
      have x: "exponent_part [] - int (length ?b) = e"
        using B' by (simp add: n_def k_def exponent_part_Nil)
      show ?thesis
        using digits_take_drop [OF ds(1), of "nat n"]
        by (intro fin [OF b _ ne(1) _ _ v x]) simp_all
    next
      case C
      let ?z = "replicate (nat (- n)) CHR ''0''"
      have "body = ''0.'' @ ?z @ ds"
        by (simp only: body_def C if_True if_False simp_thms)
      then have b: "body = reads ''0'' (?z @ ds) []"
        using ds(2) by (simp add: reads_def)
      have "''0'' @ ?z = replicate (Suc (nat (- n))) CHR ''0''"
        by simp
      then have z0: "digits_val (''0'' @ ?z) = 0"
        by (simp only: digits_val_zeros)
      have "digits_val ((''0'' @ ?z) @ ds) = digits_val (''0'' @ ?z) * 10 ^ length ds + digits_val ds"
        by (rule digits_val_append)
      with z0 ds(3) have v: "int (digits_val (''0'' @ ?z @ ds)) = \<bar>m\<bar>"
        by simp
      have x: "exponent_part [] - int (length (?z @ ds)) = e"
        using C by (simp add: n_def k_def exponent_part_Nil)
      have d: "digits ''0''"
        by (simp add: digits_def is_digit_def code_def)
      show ?thesis
        by (rule fin [OF b d _ _ _ v x]) (simp_all add: digits_append digits_zeros ds)
    next
      case D
      define ex where "ex = (if n - 1 < 0 then CHR ''-'' # show_nat (nat (1 - n))
                   else CHR ''+'' # show_nat (nat (n - 1)))"
      have exv: "exponent_part (CHR ''e'' # ex) = n - 1"
        by (simp add: ex_def exponent_part_written)
      have bd: "body = (if k = 1 then ds @ ''e'' @ ex
                        else take 1 ds @ ''.'' @ drop 1 ds @ ''e'' @ ex)"
        by (simp only: body_def ex_def Let_def D if_False simp_thms)
      show ?thesis
      proof (cases "k = 1")
        case True
        then have b: "body = reads ds [] (CHR ''e'' # ex)"
          by (simp add: bd reads_def)
        have v: "int (digits_val (ds @ [])) = \<bar>m\<bar>"
          using ds(3) by simp
        have x: "exponent_part (CHR ''e'' # ex) - int (length ([] :: string)) = e"
          using True by (simp add: exv n_def)
        have dn: "digits []"
          by (simp add: digits_def)
        show ?thesis
          by (rule fin [OF b ds(1,2) dn _ v x]) simp_all
      next
        case False
        let ?a = "take 1 ds" and ?b = "drop 1 ds"
        have "1 < length ds"
          using False ds(2) by (cases ds) (auto simp: k_def)
        then have ne: "?a \<noteq> []" "?b \<noteq> []"
          by auto
        have b: "body = reads ?a ?b (CHR ''e'' # ex)"
          using False ne by (simp add: bd reads_def)
        have v: "int (digits_val (?a @ ?b)) = \<bar>m\<bar>"
          using ds(3) by simp
        have "int (length ?b) = k - 1"
          using \<open>1 < length ds\<close> by (simp add: k_def)
        then have x: "exponent_part (CHR ''e'' # ex) - int (length ?b) = e"
          by (simp add: exv n_def)
        show ?thesis
          using digits_take_drop [OF ds(1), of 1]
          by (intro fin [OF b _ ne(1) _ _ v x]) simp_all
      qed
    qed
  qed
  show ?thesis
    using goal by (cases "m < 0") (simp_all add: nts)
qed

lemma parseFloat_num_to_string: "parseFloat (num_to_string x) = normal x"
proof (cases x)
  case NaN
  then show ?thesis by (simp add: normal_def num_to_string_def) code_simp
next
  case PosInf
  then show ?thesis by (simp add: normal_def num_to_string_def) code_simp
next
  case NegInf
  then show ?thesis by (simp add: normal_def num_to_string_def) code_simp
next
  case (Dec m e)
  then show ?thesis by (simp add: normal_def parseFloat_num_to_string_Dec)
qed

lemma parseFloat_true: "parseFloat ''true'' = NaN"
  by code_simp

lemma parseFloat_0: "parseFloat ''0'' = Dec 0 0"
  by code_simp

lemma parseFloat_1: "parseFloat ''1'' = Dec 1 0"
  by code_simp

lemma get_prop_field: "get_prop (JObj fs) k = Inr (field fs k)"
  by (simp add: field_def)

lemma coerce_number_amount:
  "scalar v \<Longrightarrow> coerce_number v d = Inr (amount v (parseFloat d))"
  by (cases v)
     (auto simp: coerce_number_def or_else_def and_then_def amount_def
        parseFloat_num_to_string parseFloat_true)

lemma clean_item_cleaned:
  assumes "scalar (field fs ''quantity'')" "scalar (field fs ''price'')"
  shows "clean_item (JObj fs) = Inr (cleaned fs)"
  using assms
  by (simp add: clean_item_def cleaned_def and_then_def get_prop_field coerce_number_amount
        parseFloat_0 parseFloat_1 del: get_prop.simps)

lemma map_items_cleaned:
  "list_all (\<lambda>fs. scalar (field fs ''quantity'') \<and> scalar (field fs ''price'')) fss \<Longrightarrow>
     map_items (map JObj fss) = Inr (map cleaned fss)"
  by (induction fss) (simp_all add: clean_item_cleaned)

lemma norm10_idem: "norm10 m e = (m', e') \<Longrightarrow> norm10 m' e' = (m', e')"
proof (induction m e rule: norm10.induct)
  case (1 m e)
  show ?case
  proof (cases "m = 0")
    case True
    with 1(2) show ?thesis by (simp add: norm10_zero)
  next
    case False
    show ?thesis
    proof (cases "m mod 10 = 0")
      case True
      with False 1(2) have "norm10 (m div 10) (e + 1) = (m', e')"
        by (subst (asm) norm10.simps) simp
      with False True 1(1) show ?thesis by simp
    next
      case m: False
      with False 1(2) have "(m', e') = (m, e)"
        by (subst (asm) norm10.simps) simp
      with m show ?thesis by (simp add: norm10_keep)
    qed
  qed
qed

lemma normal_dec: "normal (dec m e) = dec m e"
proof -
  obtain m' e' where n: "norm10 m e = (m', e')"
    by (cases "norm10 m e")
  then show ?thesis
    using norm10_idem [OF n] by (simp add: normal_def dec_def)
qed

lemma normal_normal: "normal (normal x) = normal x"
  by (cases x) (simp_all add: normal_def normal_dec [unfolded normal_def])

lemma normal_decimal_literal: "normal (decimal_literal neg u) = decimal_literal neg u"
  by (simp add: decimal_literal_def Let_def normal_dec) (simp add: normal_def)

lemma normal_parseFloat: "normal (parseFloat s) = parseFloat s"
  by (simp add: parseFloat_def Let_def normal_decimal_literal)

lemma normal_NaN: "normal NaN = NaN"
  by (simp add: normal_def)

lemma normal_amount: "normal d = d \<Longrightarrow> normal (amount v d) = amount v d"
  by (cases v) (auto simp: amount_def normal_normal normal_parseFloat normal_NaN)

lemma dec_zero: "dec 0 e = Dec 0 0"
  by (simp add: dec_def norm10_zero)

text \<open>the total of \<open>receiptData\<close> for every record\<close>
lemma receiptData_totalAmount_eq:
  "receiptData_totalAmount r
     = Inr (if totalAmount r = NaN then Dec 0 0 else normal (totalAmount r))"
proof (cases "truthy (JNum (totalAmount r))")
  case True
  then have "totalAmount r \<noteq> NaN" by auto
  with True show ?thesis
    by (simp add: receiptData_totalAmount_def coerce_number_def or_else_def and_then_def
          parseFloat_num_to_string)
next
  case False
  then have "totalAmount r = NaN \<or> (\<exists>e. totalAmount r = Dec 0 e)"
    by (cases "totalAmount r") auto
  with False show ?thesis
    by (auto simp: receiptData_totalAmount_def coerce_number_def or_else_def and_then_def
          parseFloat_0 normal_def dec_zero)
qed

text \<open>
  Claim C7, as stated: every item of a record has a finite quantity and price that are not
  negative. It fails for the text below: the quantity \<^verbatim>\<open>"abc"\<close> becomes \<open>NaN\<close> and the
  price \<^verbatim>\<open>-5\<close> stays negative.
\<close>

theorem item_amounts_unchecked:
  \<open>receiptData_items
       (extractJsonFromLLMResponse JSON_parse JSON_parse ''2026-01-01T00:00:00.000Z''
          ''{"items":[{"name":"x","quantity":"abc","price":-5}]}'')
     = [JObj [(''name'', JStr ''x''), (''quantity'', JNum NaN), (''price'', JNum (Dec (- 5) 0))]]\<close>
  by code_simp

text \<open>
  Claim C7, amended. The amounts of a record are the raw values under the coercion
  \<^verbatim>\<open>parseFloat(String(v || d))\<close> and nothing else. Let the parsed object have a scalar
  \<^verbatim>\<open>totalAmount\<close> (absent, \<^verbatim>\<open>null\<close>, a boolean, a number or a string) and an array
  \<^verbatim>\<open>items\<close> of objects with scalar quantities and prices. Then \<open>validateAndCleanData\<close>
  returns a record \<open>r\<close> whose total is \<open>amount\<close> of the raw total with the default 0: the
  default if the raw value is falsy, the number itself if it is a number, the number that
  \<open>parseFloat\<close> reads if it is a string (\<open>NaN\<close> if it reads none), \<open>NaN\<close> for
  \<^verbatim>\<open>true\<close>. Each item of \<open>r\<close> has the quantity and the price given by the same function
  with the defaults 1 and 0. This record is the result of the extraction whenever the
  strict parser, or after its failure the lenient parser, returns the object. Step 4 keeps
  the items as they are and the total too, except that a total \<open>NaN\<close> becomes 0. No sign
  and no finiteness is checked anywhere.
\<close>

theorem amounts_coerced:
  assumes "list_all (\<lambda>fs. scalar (field fs ''quantity'') \<and> scalar (field fs ''price'')) fss"
    and "scalar (field kvs ''totalAmount'')"
    and "field kvs ''items'' = JArr (map JObj fss)"
  shows "\<exists>r. validateAndCleanData now (JObj kvs) = Inr r
           \<and> totalAmount r = amount (field kvs ''totalAmount'') (Dec 0 0)
           \<and> items r = map cleaned fss
           \<and> (\<forall>strict lenient text j.
                 find_json_text text = Some j
                 \<and> strict (sanitizeJsonString (JStr j)) = Inr (JObj kvs) \<longrightarrow>
                 extractJsonFromLLMResponse strict lenient now text = r)
           \<and> (\<forall>strict lenient text j e.
                 find_json_text text = Some j
                 \<and> strict (sanitizeJsonString (JStr j)) = Inl e
                 \<and> lenient (filter (\<lambda>c. \<not> (code c \<le> 0x1F \<or> (0x7F \<le> code c \<and> code c \<le> 0x9F)))
                              (sanitizeJsonString (JStr j))) = Inr (JObj kvs) \<longrightarrow>
                 extractJsonFromLLMResponse strict lenient now text = r)
           \<and> receiptData_totalAmount r
               = Inr (if totalAmount r = NaN then Dec 0 0 else totalAmount r)
           \<and> receiptData_items r = map cleaned fss"
proof -
  define r where "r = \<lparr>vendorName = or_else (field kvs ''vendorName'') (JStr ''Unknown Vendor''),
      transactionDate = or_else (field kvs ''transactionDate'') (JStr now),
      totalAmount = amount (field kvs ''totalAmount'') (Dec 0 0),
      items = map cleaned fss\<rparr>"
  have v: "validateAndCleanData now (JObj kvs) = Inr r"
    using assms
    by (simp add: validateAndCleanData_def and_then_def get_prop_field coerce_number_amount
          parseFloat_0 map_items_cleaned r_def del: get_prop.simps)
  have n: "normal (totalAmount r) = totalAmount r"
  proof -
    have "normal (Dec 0 0) = Dec 0 0"
      by (simp add: normal_def dec_zero)
    then show ?thesis
      by (simp add: r_def normal_amount)
  qed
  have t: "receiptData_totalAmount r
             = Inr (if totalAmount r = NaN then Dec 0 0 else totalAmount r)"
    by (simp add: receiptData_totalAmount_eq n)
  have s: "extractJsonFromLLMResponse strict lenient now reply = r"
    if "find_json_text reply = Some j" "strict (sanitizeJsonString (JStr j)) = Inr (JObj kvs)"
    for strict lenient reply j
    using that v
    by (simp add: extractJsonFromLLMResponse_def extract_try_def Let_def strict_attempt_def
          and_then_def)
  have l: "extractJsonFromLLMResponse strict lenient now reply = r"
    if "find_json_text reply = Some j" "strict (sanitizeJsonString (JStr j)) = Inl e"
      "lenient (filter (\<lambda>c. \<not> (code c \<le> 0x1F \<or> (0x7F \<le> code c \<and> code c \<le> 0x9F)))
                              (sanitizeJsonString (JStr j))) = Inr (JObj kvs)"
    for strict lenient reply j e
    using that v
    by (simp add: extractJsonFromLLMResponse_def extract_try_def Let_def strict_attempt_def
          lenient_attempt_def strip_control_filter and_then_def)
  show ?thesis
    using v t s l by (intro exI [of _ r]) (auto simp: r_def receiptData_items_def)
qed

theorem amounts_coerced_witness:
  \<open>list_all (\<lambda>fs. scalar (field fs ''quantity'') \<and> scalar (field fs ''price''))
       [[(''name'', JStr ''Tea''), (''quantity'', JNum (Dec 2 0)), (''price'', JNum (Dec (- 35) (- 1)))],
         [(''quantity'', JStr ''abc'')]]
   \<and> scalar (field
       [(''vendorName'', JStr ''Cafe''), (''totalAmount'', JStr ''12.50''),
         (''items'', JArr [JObj [(''name'', JStr ''Tea''), (''quantity'', JNum (Dec 2 0)),
                                 (''price'', JNum (Dec (- 35) (- 1)))],
                           JObj [(''quantity'', JStr ''abc'')]])] ''totalAmount'')
   \<and> find_json_text ''{"vendorName":"Cafe","totalAmount":"12.50","items":[{"name":"Tea","quantity":2,"price":-3.5},{"quantity":"abc"}]}''
       = Some ''{"vendorName":"Cafe","totalAmount":"12.50","items":[{"name":"Tea","quantity":2,"price":-3.5},{"quantity":"abc"}]}''
   \<and> JSON_parse (sanitizeJsonString (JStr ''{"vendorName":"Cafe","totalAmount":"12.50","items":[{"name":"Tea","quantity":2,"price":-3.5},{"quantity":"abc"}]}''))
       = Inr (JObj
        [(''vendorName'', JStr ''Cafe''), (''totalAmount'', JStr ''12.50''),
         (''items'', JArr [JObj [(''name'', JStr ''Tea''), (''quantity'', JNum (Dec 2 0)),
                                 (''price'', JNum (Dec (- 35) (- 1)))],
                           JObj [(''quantity'', JStr ''abc'')]])])
   \<and> totalAmount (extractJsonFromLLMResponse JSON_parse JSON_parse ''2026-01-01T00:00:00.000Z''
        ''{"vendorName":"Cafe","totalAmount":"12.50","items":[{"name":"Tea","quantity":2,"price":-3.5},{"quantity":"abc"}]}'')
       = Dec 125 (- 1)
   \<and> items (extractJsonFromLLMResponse JSON_parse JSON_parse ''2026-01-01T00:00:00.000Z''
        ''{"vendorName":"Cafe","totalAmount":"12.50","items":[{"name":"Tea","quantity":2,"price":-3.5},{"quantity":"abc"}]}'')
       = [JObj [(''name'', JStr ''Tea''), (''quantity'', JNum (Dec 2 0)),
                 (''price'', JNum (Dec (- 35) (- 1)))],
           JObj [(''name'', JStr ''Unnamed Item''), (''quantity'', JNum NaN),
                 (''price'', JNum (Dec 0 0))]]
   \<and> receiptData_totalAmount
        (extractJsonFromLLMResponse JSON_parse JSON_parse ''2026-01-01T00:00:00.000Z''
           ''{"vendorName":"Cafe","totalAmount":"12.50","items":[{"name":"Tea","quantity":2,"price":-3.5},{"quantity":"abc"}]}'')
       = Inr (Dec 125 (- 1))\<close>
proof -
  let ?fss = \<open>[[(''name'', JStr ''Tea''), (''quantity'', JNum (Dec 2 0)), (''price'', JNum (Dec (- 35) (- 1)))],
         [(''quantity'', JStr ''abc'')]]\<close>
  let ?kvs = \<open>[(''vendorName'', JStr ''Cafe''), (''totalAmount'', JStr ''12.50''),
         (''items'', JArr [JObj [(''name'', JStr ''Tea''), (''quantity'', JNum (Dec 2 0)),
                                 (''price'', JNum (Dec (- 35) (- 1)))],
                           JObj [(''quantity'', JStr ''abc'')]])]\<close>
  let ?text = \<open>''{"vendorName":"Cafe","totalAmount":"12.50","items":[{"name":"Tea","quantity":2,"price":-3.5},{"quantity":"abc"}]}''\<close>
  have h1: "list_all (\<lambda>fs. scalar (field fs ''quantity'') \<and> scalar (field fs ''price'')) ?fss"
    by (simp add: field_def)
  have h2: "scalar (field ?kvs ''totalAmount'')"
    by (simp add: field_def)
  have h3: "field ?kvs ''items'' = JArr (map JObj ?fss)"
    by (simp add: field_def)
  have f: "find_json_text ?text = Some ?text"
    by code_simp
  have p: "JSON_parse (sanitizeJsonString (JStr ?text)) = Inr (JObj ?kvs)"
    by code_simp
  from amounts_coerced [OF h1 h2 h3, of "''2026-01-01T00:00:00.000Z''"]
  obtain r where r: "totalAmount r = amount (field ?kvs ''totalAmount'') (Dec 0 0)"
      "items r = map cleaned ?fss"
      "\<forall>strict lenient text j.
          find_json_text text = Some j \<and> strict (sanitizeJsonString (JStr j)) = Inr (JObj ?kvs) \<longrightarrow>
          extractJsonFromLLMResponse strict lenient ''2026-01-01T00:00:00.000Z'' text = r"
      "receiptData_totalAmount r = Inr (if totalAmount r = NaN then Dec 0 0 else totalAmount r)"
    by blast
  from r(3) f p
  have e: "extractJsonFromLLMResponse JSON_parse JSON_parse ''2026-01-01T00:00:00.000Z'' ?text = r"
    by blast
  have a: "amount (field ?kvs ''totalAmount'') (Dec 0 0) = Dec 125 (- 1)"
    by code_simp
  have c: "map cleaned ?fss = [JObj [(''name'', JStr ''Tea''), (''quantity'', JNum (Dec 2 0)),
                 (''price'', JNum (Dec (- 35) (- 1)))],
           JObj [(''name'', JStr ''Unnamed Item''), (''quantity'', JNum NaN),
                 (''price'', JNum (Dec 0 0))]]"
    by code_simp
  from h1 h2 f p show ?thesis
    by (simp only: e r(1,2,4) a c simp_thms jsnum.distinct if_False)
qed

subsection \<open>Dates\<close>

lemma try_formats_dmy_time: \<open>try_formats formats now ''18/05/25 10:30:00'' = NewDate 2025 4 18 10 30 0\<close>
  by code_simp

text \<open>
  Claim C8. If the parser of the platform finds no date in \<^verbatim>\<open>18/05/25 10:30:00\<close>, as is
  the case for Node.js, \<open>parseDate\<close> returns the local time 2025-05-18 10:30:00: the day
  comes first, the year is 2000 + 25, the month is counted from 0, and the time is that of
  the text.
\<close>

theorem parseDate_dmy_time:
  \<open>native ''18/05/25 10:30:00'' = None \<Longrightarrow>
     parseDate native now (DString ''18/05/25 10:30:00'') = NewDate 2025 4 18 10 30 0\<close>
  by (simp add: parseDate_def try_formats_dmy_time)

theorem parseDate_dmy_time_witness:
  \<open>(\<lambda>s. None :: date option) ''18/05/25 10:30:00'' = None
     \<and> parseDate (\<lambda>s. None) (NewDate 2026 10 3 9 0 0) (DString ''18/05/25 10:30:00'')
         = NewDate 2025 4 18 10 30 0\<close>
  using parseDate_dmy_time [of "\<lambda>s. None" "NewDate 2026 10 3 9 0 0"]
  by simp

text \<open>The first format takes every text that the second one matches: a match of
  \<^verbatim>\<open>(\d{4})\<close> begins with a match of \<^verbatim>\<open>(\d{2})\<close>, and the rest of the first expression
  is optional. The loop gives the same date with and without the second format.\<close>

lemma cats_Cons: "cats (r # rs) = Cat r (cats rs)"
  by (simp add: cats_def)

lemma ms_Cat_mono:
  assumes "ms (Cat a b) s c \<noteq> []"
    and "\<And>s c. ms b s c \<noteq> [] \<Longrightarrow> ms b' s c \<noteq> []"
  shows "ms (Cat a b') s c \<noteq> []"
proof -
  from assms(1) obtain x where x: "x \<in> set (ms a s c)" "ms b (fst x) (snd x) \<noteq> []"
    by (auto simp: case_prod_beta)
  then have "ms b' (fst x) (snd x) \<noteq> []"
    using assms(2) by blast
  with x(1) show ?thesis
    by (auto simp: case_prod_beta)
qed

lemma ms_cats_mono:
  assumes "ms (cats (r # rs)) s c \<noteq> []"
    and "\<And>s c. ms (cats rs) s c \<noteq> [] \<Longrightarrow> ms (cats rs') s c \<noteq> []"
  shows "ms (cats (r # rs')) s c \<noteq> []"
  using assms unfolding cats_Cons by (rule ms_Cat_mono)

lemma ms_Opt_tail: "ms (Cat (Opt x) Empty) s c \<noteq> []"
  by (simp add: Opt_def)

lemma year_tail:
  assumes "ms (cats [Grp 3 four_digits]) s c \<noteq> []"
  shows "ms (cats [Grp 3 (Cat (Cls is_digit) (Cls is_digit)), Opt x]) s c \<noteq> []"
proof -
  from assms obtain a b r where s: "s = a # b # r" "is_digit a" "is_digit b"
    by (auto simp: cats_def four_digits_def split: list.splits if_splits)
  have "ms (Cat (Opt x) Empty) r ((3, [a, b]) # c) \<noteq> []"
    by (rule ms_Opt_tail)
  with s show ?thesis
    by (simp add: cats_def)
qed

lemma mdy_matches_dmy: "ms mdy_rx s c \<noteq> [] \<Longrightarrow> ms dmy_time_rx s c \<noteq> []"
  unfolding mdy_rx_def dmy_time_rx_def
  by (erule ms_cats_mono)+ (erule year_tail)

lemma rx_match_mono:
  assumes "\<And>t. ms r t [] \<noteq> [] \<Longrightarrow> ms r' t [] \<noteq> []"
  shows "rx_match r' s = None \<Longrightarrow> rx_match r s = None"
proof (induction s)
  case Nil
  then have "ms r' [] [] = []"
    by (auto simp: match_here_def split: list.splits)
  with assms have "ms r [] [] = []" by blast
  then show ?case by (simp add: match_here_def)
next
  case (Cons x xs)
  then have "ms r' (x # xs) [] = []" "rx_match r' xs = None"
    by (auto simp: match_here_def split: list.splits option.splits)
  with assms Cons.IH have "ms r (x # xs) [] = []" "rx_match r xs = None"
    by blast+
  then show ?case by (simp add: match_here_def)
qed

lemma mdy_shadowed: "rx_match dmy_time_rx s = None \<Longrightarrow> rx_match mdy_rx s = None"
  using mdy_matches_dmy by (rule rx_match_mono)

lemma second_format_unused:
  "try_formats formats now s = try_formats [formats ! 0, formats ! 2] now s"
  by (cases "rx_match dmy_time_rx s") (auto simp: formats_def mdy_shadowed)

text \<open>
  Claim C4. The claim is that a text of the form M/D/YYYY which the parser of the platform
  refuses is read by the second format, with its four-digit year. The expression of the
  first format is not anchored and its year is two digits, so that it matches the same text
  up to the second digit of the year (\<open>second_format_unused\<close>): \<^verbatim>\<open>18/05/2025\<close> becomes
  the 18th of May 2020, the first number taken as the day and \<^verbatim>\<open>20\<close> as the year.
\<close>

theorem parseDate_mdy_shadowed:
  \<open>parseDate (\<lambda>s. None) (NewDate 1970 0 1 0 0 0) (DString ''18/05/2025'')
     = NewDate 2020 4 18 0 0 0\<close>
  by code_simp

end
